theory Spec2Isabelle
  imports Main "HOL-Library.Sublist"
begin

section \<open>Data model (src/src/webhookHandler.ts, lines 76--108)\<close>

text \<open>
  Identifiers and file names are \<^typ>\<open>string\<close>s. The only operations the code applies to
  them are comparisons and substring tests against ASCII patterns, which read the same on
  UTF-8 bytes as on the UTF-16 code units of the JavaScript runtime. File content, on which
  the regular expressions of the normalizer run, is a list of UTF-16 code units.
\<close>

type_synonym jsstring = "nat list"

datatype file_status = Added | Modified | Removed

record FileChange =
  filename :: string
  fstatus :: file_status
  content :: "jsstring option"
  fsize :: "nat option"

text \<open>JavaScript truthiness of an optional string: defined and not empty.\<close>

fun truthy :: "'a list option \<Rightarrow> bool" where
  "truthy None = False"
| "truthy (Some s) = (s \<noteq> [])"

section \<open>Webhook orchestrator: priority score\<close>

definition criticalExtensions :: "string list" where
  "criticalExtensions = [''.md'', ''.txt'', ''.json'', ''.xml'', ''.csv'', ''.pdf'', ''.docx'']"

text \<open>\<open>String.prototype.endsWith\<close> is \<^const>\<open>suffix\<close>.\<close>

definition hasCriticalFiles :: "FileChange list \<Rightarrow> bool" where
  "hasCriticalFiles fs =
     list_ex (\<lambda>f. list_ex (\<lambda>ext. suffix ext (filename f)) criticalExtensions) fs"

text \<open>
  \<open>calculatePriority\<close> (lines 740--761): \<open>Math.floor(files.length / 5)\<close> is integer
  division of a natural number, and the intermediate value may exceed 10 before the final
  \<open>Math.min\<close>.
\<close>

definition calculatePriority :: "FileChange list \<Rightarrow> int" where
  "calculatePriority fs =
     (let priority = max 1 (10 - int (length fs div 5));
          priority = (if hasCriticalFiles fs then priority + 2 else priority)
      in min 10 priority)"

text \<open>The formula in the words of the specification, to compare with the code.\<close>

definition priority_formula :: "FileChange list \<Rightarrow> int" where
  "priority_formula fs =
     min 10 (max 1 (10 - int (length fs) div 5)
             + (if \<exists>f \<in> set fs. \<exists>ext \<in> set criticalExtensions. suffix ext (filename f)
                then 2 else 0))"

section \<open>Priority score: results\<close>

lemma hasCriticalFiles_iff:
  "hasCriticalFiles fs \<longleftrightarrow>
     (\<exists>f \<in> set fs. \<exists>ext \<in> set criticalExtensions. suffix ext (filename f))"
  by (simp add: hasCriticalFiles_def list_ex_iff)

lemma md_is_critical: "suffix ''.md'' n \<Longrightarrow> list_ex (\<lambda>ext. suffix ext n) criticalExtensions"
  by (simp add: criticalExtensions_def)

text \<open>
  C5: the computed priority is \<open>min(10, max(1, 10 - floor(count/5)) + (2 if some file name
  ends with a critical extension, else 0))\<close>; for five files that all end in \<open>.md\<close> it is 10.
\<close>

theorem calculatePriority_formula:
  "calculatePriority fs = priority_formula fs \<and>
   (length fs = 5 \<and> (\<forall>f \<in> set fs. suffix ''.md'' (filename f)) \<longrightarrow> calculatePriority fs = 10)"
proof
  show "calculatePriority fs = priority_formula fs"
    by (simp add: calculatePriority_def priority_formula_def hasCriticalFiles_iff Let_def
        zdiv_int)
next
  show "length fs = 5 \<and> (\<forall>f \<in> set fs. suffix ''.md'' (filename f)) \<longrightarrow> calculatePriority fs = 10"
  proof
    assume h: "length fs = 5 \<and> (\<forall>f \<in> set fs. suffix ''.md'' (filename f))"
    then obtain f where "f \<in> set fs" by (cases fs) auto
    with h have "hasCriticalFiles fs"
      unfolding hasCriticalFiles_def list_ex_iff using md_is_critical[unfolded list_ex_iff] by blast
    with h show "calculatePriority fs = 10"
      by (simp add: calculatePriority_def Let_def)
  qed
qed

definition md_file :: "string \<Rightarrow> FileChange" where
  "md_file n = \<lparr>filename = n, fstatus = Added, content = Some [35], fsize = None\<rparr>"

definition five_md_files :: "FileChange list" where
  "five_md_files = map md_file [''a.md'', ''b.md'', ''docs/c.md'', ''d.md'', ''e.md'']"

theorem calculatePriority_formula_witness:
  "length five_md_files = 5 \<and> list_all (\<lambda>f. suffix ''.md'' (filename f)) five_md_files \<and>
   calculatePriority five_md_files = 10 \<and> priority_formula five_md_files = 10"
proof -
  have len: "length five_md_files = 5"
    by (simp add: five_md_files_def)
  have md: "\<forall>f \<in> set five_md_files. suffix ''.md'' (filename f)"
    by (simp add: five_md_files_def md_file_def suffix_def)
  from calculatePriority_formula[of five_md_files] len md
  have "calculatePriority five_md_files = 10" and "priority_formula five_md_files = 10"
    by simp_all
  with len md show ?thesis by (simp add: list_all_iff)
qed

section \<open>Priority job queue (class \<open>JobQueue\<close>, lines 110--263)\<close>

datatype job_status = Pending | Processing | Completed | Failed | Retrying

datatype result_status = Success | FailedResult

record FileResult =
  rfilename :: string
  rstatus :: result_status
  rerror :: "string option"

datatype batch_status = BatchPending | BatchProcessing | BatchCompleted | BatchFailed

record BatchJob =
  bid :: string
  brepository :: string
  bfiles :: "FileChange list"
  vectorStoreId :: string
  bstatus :: batch_status
  berror :: "string option"
  bresults :: "FileResult list"

text \<open>
  The argument of \<open>addJob\<close> is a \<open>QueueJob\<close> without \<open>id\<close>, \<open>createdAt\<close>, \<open>attempts\<close> and
  \<open>status\<close>; \<open>QueueJob\<close> extends it. The field \<open>id\<close> is named \<open>jid\<close>.
\<close>

record JobInput =
  repository :: string
  files :: "FileChange list"
  priority :: int

record QueueJob = JobInput +
  jid :: string
  createdAt :: nat
  attempts :: nat
  status :: job_status
  error :: "string option"

text \<open>A value caught by \<open>catch (error)\<close>: an \<open>Error\<close> with its message, or anything else.\<close>

datatype thrown = ErrorObject string | OtherValue

fun error_message :: "thrown \<Rightarrow> string" where
  "error_message (ErrorObject m) = m"
| "error_message OtherValue = ''Unknown error''"

text \<open>How the awaited call \<open>processor.processFileBatch\<close> settles.\<close>

datatype outcome = Returned BatchJob | Threw thrown

record completion =
  cstatus :: string
  cresult :: "BatchJob option"
  cerror :: "string option"

datatype timer_action = SetPending nat | Evict nat

datatype event =
  JobAdded nat | JobStarted nat | JobCompleted nat | JobRetrying nat | JobFailed nat

text \<open>
  Job objects are shared between the queue array, the running \<open>processJob\<close> calls and the
  timer callbacks, and are mutated through all of them, so the model keeps them in a store
  addressed by reference. \<open>nxt\<close> is the next unused reference. \<open>processing\<close> is a
  \<open>Set<string>\<close> (insertion-ordered, no duplicates), \<open>completed\<close> a \<open>Map\<close>.
  \<open>timers\<close> holds the callbacks registered with \<open>setTimeout\<close> that have not fired, each with
  its delay in milliseconds; \<open>suspended\<close> the \<open>processJob\<close> calls waiting at their
  \<open>await\<close>. \<open>invoked\<close> records every call of the Batch Processor, by job reference, and
  \<open>emitted\<close> the events given to \<open>emit\<close>.
\<close>

record JobQueue =
  heap :: "nat \<Rightarrow> QueueJob"
  nxt :: nat
  queue :: "nat list"
  processing :: "string list"
  completed :: "string \<rightharpoonup> completion"
  maxConcurrent :: int
  maxSize :: int
  timers :: "(nat \<times> timer_action) list"
  suspended :: "nat list"
  invoked :: "nat list"
  emitted :: "event list"

definition blank_job :: QueueJob where
  "blank_job = \<lparr>repository = [], files = [], priority = 0, jid = [], createdAt = 0,
     attempts = 0, status = Pending, error = None\<rparr>"

text \<open>The constructor; the interval it starts is the action \<open>Tick\<close> below.\<close>

definition new_JobQueue :: "int \<Rightarrow> int \<Rightarrow> JobQueue" where
  "new_JobQueue mc ms = \<lparr>heap = (\<lambda>_. blank_job), nxt = 0, queue = [], processing = [],
     completed = Map.empty, maxConcurrent = mc, maxSize = ms, timers = [], suspended = [],
     invoked = [], emitted = []\<rparr>"

datatype queue_error = QueueAtMaximumCapacity

text \<open>\<open>Array.prototype.findIndex\<close>: \<open>None\<close> stands for \<open>-1\<close>.\<close>

fun findIndex :: "('a \<Rightarrow> bool) \<Rightarrow> 'a list \<Rightarrow> nat option" where
  "findIndex P [] = None"
| "findIndex P (x # xs) =
     (if P x then Some 0 else (case findIndex P xs of None \<Rightarrow> None | Some i \<Rightarrow> Some (Suc i)))"

text \<open>\<open>xs.splice(i, 0, x)\<close> and \<open>xs.splice(i, 1)\<close>.\<close>

definition splice_in :: "nat \<Rightarrow> 'a \<Rightarrow> 'a list \<Rightarrow> 'a list" where
  "splice_in i x xs = take i xs @ [x] @ drop i xs"

definition splice_out :: "nat \<Rightarrow> 'a list \<Rightarrow> 'a list" where
  "splice_out i xs = take i xs @ drop (Suc i) xs"

definition set_add :: "'a \<Rightarrow> 'a list \<Rightarrow> 'a list" where
  "set_add x xs = (if x \<in> set xs then xs else xs @ [x])"

definition set_delete :: "'a \<Rightarrow> 'a list \<Rightarrow> 'a list" where
  "set_delete x xs = removeAll x xs"

text \<open>
  \<open>addJob\<close> (lines 126--154). \<open>new_id\<close> and \<open>now\<close> are what \<open>Date.now()\<close>,
  \<open>Math.random()\<close> and \<open>new Date()\<close> give. The result is the returned id or the thrown
  error, with the state after the call.
\<close>

definition addJob ::
  "string \<Rightarrow> nat \<Rightarrow> JobInput \<Rightarrow> JobQueue \<Rightarrow> (queue_error + string) \<times> JobQueue" where
  "addJob new_id now job s =
     (if maxSize s \<le> int (length (queue s)) then (Inl QueueAtMaximumCapacity, s)
      else
        let r = nxt s;
            queueJob = \<lparr>repository = repository job, files = files job,
              priority = priority job, jid = new_id, createdAt = now, attempts = 0,
              status = Pending, error = None\<rparr>;
            h = (heap s)(r := queueJob);
            q = (case findIndex (\<lambda>j. priority (heap s j) < priority job) (queue s) of
                   None \<Rightarrow> queue s @ [r]
                 | Some insertIndex \<Rightarrow> splice_in insertIndex r (queue s))
        in (Inr new_id,
            s\<lparr>heap := h, nxt := Suc r, queue := q, emitted := emitted s @ [JobAdded r]\<rparr>))"

text \<open>
  \<open>processJob\<close> (lines 172--227) up to its \<open>await\<close>: the status and attempt counter are
  set, the id joins \<open>processing\<close>, and the Batch Processor is called.
\<close>

definition processJob_start :: "nat \<Rightarrow> JobQueue \<Rightarrow> JobQueue" where
  "processJob_start r s =
     (let job = (heap s r)\<lparr>attempts := Suc (attempts (heap s r)), status := Processing\<rparr>
      in s\<lparr>heap := (heap s)(r := job),
           processing := set_add (jid job) (processing s),
           emitted := emitted s @ [JobStarted r],
           invoked := invoked s @ [r],
           suspended := suspended s @ [r]\<rparr>)"

text \<open>The rest of \<open>processJob\<close>, run when the awaited call settles: \<open>try\<close>/\<open>catch\<close>,
  then \<open>finally\<close>.\<close>

definition processJob_try :: "nat \<Rightarrow> outcome \<Rightarrow> JobQueue \<Rightarrow> JobQueue" where
  "processJob_try r out s =
     (let job = heap s r in
      case out of
        Returned result \<Rightarrow>
          s\<lparr>heap := (heap s)(r := job\<lparr>status := Completed\<rparr>),
            completed := (completed s)(jid job \<mapsto>
              \<lparr>cstatus = ''completed'', cresult = Some result, cerror = None\<rparr>),
            emitted := emitted s @ [JobCompleted r]\<rparr>
      | Threw e \<Rightarrow>
          if attempts job < 3 then
            s\<lparr>heap := (heap s)(r := job\<lparr>status := Retrying\<rparr>),
              timers := timers s @ [(2 ^ attempts job * 1000, SetPending r)],
              emitted := emitted s @ [JobRetrying r]\<rparr>
          else
            s\<lparr>heap := (heap s)(r := job\<lparr>status := Failed, error := Some (error_message e)\<rparr>),
              completed := (completed s)(jid job \<mapsto>
                \<lparr>cstatus = ''failed'', cresult = None, cerror = Some (error_message e)\<rparr>),
              emitted := emitted s @ [JobFailed r]\<rparr>)"

definition processJob_finally :: "nat \<Rightarrow> JobQueue \<Rightarrow> JobQueue" where
  "processJob_finally r s =
     s\<lparr>processing := set_delete (jid (heap s r)) (processing s),
       timers := timers s @ [(5 * 60 * 1000, Evict r)]\<rparr>"

definition processJob_settle :: "nat \<Rightarrow> outcome \<Rightarrow> JobQueue \<Rightarrow> JobQueue" where
  "processJob_settle r out s = processJob_finally r (processJob_try r out s)"

text \<open>The two timer callbacks of \<open>processJob\<close>.\<close>

fun run_timer :: "timer_action \<Rightarrow> JobQueue \<Rightarrow> JobQueue" where
  "run_timer (SetPending r) s = s\<lparr>heap := (heap s)(r := (heap s r)\<lparr>status := Pending\<rparr>)\<rparr>"
| "run_timer (Evict r) s =
     (case findIndex (\<lambda>j. jid (heap s j) = jid (heap s r)) (queue s) of
        None \<Rightarrow> s
      | Some index \<Rightarrow>
          if status (heap s r) = Completed \<or> status (heap s r) = Failed
          then s\<lparr>queue := splice_out index (queue s)\<rparr> else s)"

text \<open>The number of pending jobs in the queue: what the scheduler loop uses up.\<close>

definition pending_count :: "JobQueue \<Rightarrow> nat" where
  "pending_count s = length (filter (\<lambda>j. status (heap s j) = Pending) (queue s))"

lemma filter_length_less:
  "x \<in> set xs \<Longrightarrow> P x \<Longrightarrow> \<not> Q x \<Longrightarrow> (\<And>y. Q y \<Longrightarrow> P y) \<Longrightarrow>
   length (filter Q xs) < length (filter P xs)"
proof (induction xs)
  case Nil
  then show ?case by simp
next
  case (Cons a xs)
  have le: "length (filter Q xs) \<le> length (filter P xs)"
    using Cons.prems(4) by (induction xs) auto
  show ?case
  proof (cases "x = a")
    case True
    with Cons.prems le show ?thesis by simp
  next
    case False
    with Cons have "length (filter Q xs) < length (filter P xs)" by simp
    with Cons.prems(4) show ?thesis by auto
  qed
qed

lemma processJob_start_fields [simp]:
  "queue (processJob_start r s) = queue s"
  "nxt (processJob_start r s) = nxt s"
  "timers (processJob_start r s) = timers s"
  "completed (processJob_start r s) = completed s"
  "maxSize (processJob_start r s) = maxSize s"
  "maxConcurrent (processJob_start r s) = maxConcurrent s"
  "invoked (processJob_start r s) = invoked s @ [r]"
  "suspended (processJob_start r s) = suspended s @ [r]"
  "heap (processJob_start r s) =
     (heap s)(r := (heap s r)\<lparr>attempts := Suc (attempts (heap s r)), status := Processing\<rparr>)"
  by (simp_all add: processJob_start_def Let_def)

lemma pending_count_start:
  assumes "find (\<lambda>j. status (heap s j) = Pending) (queue s) = Some r"
  shows "pending_count (processJob_start r s) < pending_count s"
proof -
  from assms have r: "r \<in> set (queue s)" "status (heap s r) = Pending"
    by (auto simp: find_Some_iff)
  have "length (filter (\<lambda>j. status (heap (processJob_start r s) j) = Pending) (queue s))
        < length (filter (\<lambda>j. status (heap s j) = Pending) (queue s))"
    by (rule filter_length_less[where x = r]) (use r in \<open>auto split: if_splits\<close>)
  then show ?thesis
    by (simp add: pending_count_def)
qed

text \<open>
  The body of the \<open>setInterval\<close> callback of \<open>processQueue\<close> (lines 158--168): a \<open>while\<close>
  loop that starts pending jobs as long as fewer than \<open>maxConcurrent\<close> are processing.
\<close>

function processQueue_tick :: "JobQueue \<Rightarrow> JobQueue" where
  "processQueue_tick s =
     (if int (length (processing s)) < maxConcurrent s \<and> 0 < length (queue s) then
        (case find (\<lambda>j. status (heap s j) = Pending) (queue s) of
           Some job \<Rightarrow> processQueue_tick (processJob_start job s)
         | None \<Rightarrow> s)
      else s)"
  by pat_completeness auto
termination
  by (relation "measure pending_count") (auto simp: pending_count_start)

text \<open>
  What can happen to a queue: a call of \<open>addJob\<close>, a tick of the scheduler, the settling of
  a suspended \<open>processJob\<close> call, the firing of a registered timer (in any order: the model
  does not keep time). An action that is not possible in a state leaves it as it is.
\<close>

datatype action =
  AddJob string nat JobInput | Tick | Settle nat outcome | Fire nat

fun exec :: "JobQueue \<Rightarrow> action \<Rightarrow> JobQueue" where
  "exec s (AddJob new_id now job) = snd (addJob new_id now job s)"
| "exec s Tick = processQueue_tick s"
| "exec s (Settle r out) =
     (if r \<in> set (suspended s)
      then processJob_settle r out (s\<lparr>suspended := remove1 r (suspended s)\<rparr>) else s)"
| "exec s (Fire k) =
     (if k < length (timers s)
      then run_timer (snd (timers s ! k)) (s\<lparr>timers := splice_out k (timers s)\<rparr>) else s)"

definition run :: "JobQueue \<Rightarrow> action list \<Rightarrow> JobQueue" where
  "run s acts = foldl exec s acts"

section \<open>Priority job queue: invariants of every run\<close>

lemma insert_at_takeWhile:
  "(case findIndex P xs of None \<Rightarrow> xs @ [r] | Some i \<Rightarrow> splice_in i r xs)
   = takeWhile (\<lambda>x. \<not> P x) xs @ r # dropWhile (\<lambda>x. \<not> P x) xs"
  by (induction xs) (auto simp: splice_in_def split: option.splits)

lemma findIndex_None: "findIndex P xs = None \<longleftrightarrow> (\<forall>x \<in> set xs. \<not> P x)"
  by (induction xs) (auto split: option.splits)

lemma findIndex_Some:
  "findIndex P xs = Some i \<Longrightarrow> i < length xs \<and> P (xs ! i) \<and> (\<forall>j < i. \<not> P (xs ! j))"
proof (induction xs arbitrary: i)
  case Nil
  then show ?case by simp
next
  case (Cons a xs)
  then show ?case
    by (auto split: if_splits option.splits simp: nth_Cons split: nat.splits)
qed

definition before :: "JobQueue \<Rightarrow> nat \<Rightarrow> nat \<Rightarrow> bool" where
  "before s a b \<longleftrightarrow>
     priority (heap s b) < priority (heap s a) \<or>
     (priority (heap s a) = priority (heap s b) \<and> a < b)"

fun retry_refs :: "(nat \<times> timer_action) list \<Rightarrow> nat list" where
  "retry_refs [] = []"
| "retry_refs ((d, SetPending r) # ts) = r # retry_refs ts"
| "retry_refs ((d, Evict r) # ts) = retry_refs ts"

definition refs_ok :: "JobQueue \<Rightarrow> bool" where
  "refs_ok s \<longleftrightarrow> (\<forall>r \<in> set (queue s) \<union> set (suspended s) \<union> set (retry_refs (timers s)) \<union> set (invoked s). r < nxt s)"

definition ordered :: "JobQueue \<Rightarrow> bool" where
  "ordered s \<longleftrightarrow> sorted_wrt (before s) (queue s)"

definition susp_ok :: "JobQueue \<Rightarrow> bool" where
  "susp_ok s \<longleftrightarrow> (\<forall>r \<in> set (suspended s). status (heap s r) = Processing) \<and> distinct (suspended s)"

definition retry_ok :: "JobQueue \<Rightarrow> bool" where
  "retry_ok s \<longleftrightarrow> (\<forall>r \<in> set (retry_refs (timers s)). status (heap s r) = Retrying) \<and> distinct (retry_refs (timers s))"

definition counted :: "JobQueue \<Rightarrow> bool" where
  "counted s \<longleftrightarrow> (\<forall>r. attempts (heap s r) = count_list (invoked s) r)"

definition bounded :: "JobQueue \<Rightarrow> bool" where
  "bounded s \<longleftrightarrow> int (length (queue s)) \<le> max 0 (maxSize s)"

definition wf :: "JobQueue \<Rightarrow> bool" where
  "wf s \<longleftrightarrow> refs_ok s \<and> ordered s \<and> susp_ok s \<and> retry_ok s \<and> counted s \<and> bounded s"

lemmas wf_defs = wf_def refs_ok_def ordered_def susp_ok_def retry_ok_def counted_def bounded_def

lemma wf_new: "wf (new_JobQueue mc ms)"
  by (simp add: wf_defs new_JobQueue_def blank_job_def)

lemma addJob_full:
  "maxSize s \<le> int (length (queue s)) \<Longrightarrow> addJob i t job s = (Inl QueueAtMaximumCapacity, s)"
  by (simp add: addJob_def)

lemma retry_refs_append [simp]: "retry_refs (xs @ ys) = retry_refs xs @ retry_refs ys"
  by (induction xs rule: retry_refs.induct) auto

lemma addJob_room:
  assumes "int (length (queue s)) < maxSize s"
  shows "addJob i t job s = (Inr i,
     s\<lparr>heap := (heap s)(nxt s := \<lparr>repository = repository job, files = files job,
              priority = priority job, jid = i, createdAt = t, attempts = 0,
              status = Pending, error = None\<rparr>),
       nxt := Suc (nxt s),
       queue := takeWhile (\<lambda>j. \<not> priority (heap s j) < priority job) (queue s) @
                nxt s # dropWhile (\<lambda>j. \<not> priority (heap s j) < priority job) (queue s),
       emitted := emitted s @ [JobAdded (nxt s)]\<rparr>)"
  using assms by (simp add: addJob_def Let_def insert_at_takeWhile)

lemma sorted_wrt_insert:
  assumes "sorted_wrt R xs"
    and "\<And>x. x \<in> set (takeWhile P xs) \<Longrightarrow> R x r"
    and "\<And>y. y \<in> set (dropWhile P xs) \<Longrightarrow> R r y"
  shows "sorted_wrt R (takeWhile P xs @ r # dropWhile P xs)"
proof -
  have "sorted_wrt R (takeWhile P xs @ dropWhile P xs)" using assms(1) by simp
  then show ?thesis
    using assms(2,3) by (auto simp: sorted_wrt_append simp del: takeWhile_dropWhile_id)
qed

lemma dropWhile_below:
  assumes "sorted_wrt R xs" "y \<in> set (dropWhile P xs)"
  shows "y = hd (dropWhile P xs) \<or> R (hd (dropWhile P xs)) y"
proof -
  obtain a as where d: "dropWhile P xs = a # as" using assms(2) by (cases "dropWhile P xs") auto
  have "sorted_wrt R (takeWhile P xs @ dropWhile P xs)" using assms(1) by simp
  then have "sorted_wrt R (a # as)" unfolding d sorted_wrt_append by simp
  with assms(2) d show ?thesis by auto
qed

lemma wf_addJob: assumes "wf s" shows "wf (snd (addJob i t job s))"
proof (cases "int (length (queue s)) < maxSize s")
  case False
  with assms show ?thesis by (simp add: addJob_full)
next
  case True
  let ?P = "\<lambda>j. \<not> priority (heap s j) < priority job"
  let ?s = "snd (addJob i t job s)"
  note eq = addJob_room[OF True, of i t job]
  have q: "set (queue s) = set (takeWhile ?P (queue s)) \<union> set (dropWhile ?P (queue s))"
    by (metis set_append takeWhile_dropWhile_id)
  have refs: "refs_ok ?s"
    using assms unfolding wf_def refs_ok_def eq
    by (auto simp: less_Suc_eq dest: set_takeWhileD set_dropWhileD)
  have lt: "\<And>r. r \<in> set (queue s) \<Longrightarrow> r < nxt s" using assms by (auto simp: wf_defs)
  have srt: "sorted_wrt (before s) (queue s)" using assms by (simp add: wf_defs)
  have below: "priority (heap s y) < priority job" if y: "y \<in> set (dropWhile ?P (queue s))" for y
  proof -
    obtain a as where d: "dropWhile ?P (queue s) = a # as"
      using y by (cases "dropWhile ?P (queue s)") auto
    then have a: "priority (heap s a) < priority job"
      by (auto simp: dropWhile_eq_Cons_conv)
    from dropWhile_below[OF srt y] d have "y = a \<or> before s a y" by simp
    with a show ?thesis by (auto simp: before_def)
  qed
  have "sorted_wrt (before ?s) (takeWhile ?P (queue s) @ nxt s # dropWhile ?P (queue s))"
  proof (rule sorted_wrt_insert)
    have same: "before ?s x y = before s x y" if "x \<in> set (queue s)" "y \<in> set (queue s)" for x y
      using lt[OF that(1)] lt[OF that(2)] by (simp add: eq before_def)
    show "sorted_wrt (before ?s) (queue s)"
      by (rule sorted_wrt_mono_rel[OF _ srt]) (simp add: same)
  next
    fix x assume "x \<in> set (takeWhile ?P (queue s))"
    then have "x \<in> set (queue s)" "?P x" by (auto dest: set_takeWhileD)
    then show "before ?s x (nxt s)" using lt[of x] by (auto simp: eq before_def)
  next
    fix y assume y: "y \<in> set (dropWhile ?P (queue s))"
    then have "y \<in> set (queue s)" by (auto dest: set_dropWhileD)
    then show "before ?s (nxt s) y" using lt[of y] below[OF y] by (auto simp: eq before_def)
  qed
  then have ord: "ordered ?s" by (simp add: ordered_def eq)
  have susp: "susp_ok ?s" using assms unfolding wf_def refs_ok_def susp_ok_def eq by auto
  have retry: "retry_ok ?s" using assms unfolding wf_def refs_ok_def retry_ok_def eq by auto
  have cnt: "counted ?s" using assms unfolding wf_def refs_ok_def counted_def eq
    by (auto simp: count_list_0_iff)
  have "length (takeWhile ?P (queue s)) + length (dropWhile ?P (queue s)) = length (queue s)"
    by (metis length_append takeWhile_dropWhile_id)
  then have bnd: "bounded ?s" using True unfolding bounded_def eq by simp
  from refs ord susp retry cnt bnd show ?thesis by (simp add: wf_def)
qed


lemma before_heap_cong:
  "(\<And>r. priority (h' r) = priority (heap s r)) \<Longrightarrow> before (s\<lparr>heap := h'\<rparr>) = before s"
  by (auto simp: before_def fun_eq_iff)

lemma before_priority_cong:
  "(\<And>r. priority (heap s' r) = priority (heap s r)) \<Longrightarrow> before s' = before s"
  by (auto simp: before_def fun_eq_iff)

lemma wf_start:
  assumes "wf s" "r \<in> set (queue s)" "status (heap s r) = Pending"
  shows "wf (processJob_start r s)"
proof -
  let ?s = "processJob_start r s"
  have rn: "r < nxt s" using assms by (auto simp: wf_defs)
  have nosusp: "r \<notin> set (suspended s)" using assms by (auto simp: wf_defs)
  have noretry: "r \<notin> set (retry_refs (timers s))" using assms by (auto simp: wf_defs)
  have "refs_ok ?s" using assms(1) rn by (auto simp: wf_def refs_ok_def)
  moreover have "before ?s = before s" by (rule before_priority_cong) simp
  then have "ordered ?s" using assms(1) by (simp add: wf_def ordered_def)
  moreover have "susp_ok ?s" using assms(1) nosusp by (auto simp: wf_def susp_ok_def)
  moreover have "retry_ok ?s" using assms(1) noretry by (auto simp: wf_def retry_ok_def)
  moreover have "counted ?s" using assms(1) by (auto simp: wf_def counted_def)
  moreover have "bounded ?s" using assms(1) by (auto simp: wf_def bounded_def)
  ultimately show ?thesis by (simp add: wf_def)
qed

lemma wf_tick: "wf s \<Longrightarrow> wf (processQueue_tick s)"
proof (induction s rule: processQueue_tick.induct)
  case (1 s)
  show ?case
  proof (cases "int (length (processing s)) < maxConcurrent s \<and> 0 < length (queue s)")
    case False
    with "1.prems" show ?thesis by (simp del: processQueue_tick.simps add: processQueue_tick.simps[of s])
  next
    case True
    show ?thesis
    proof (cases "find (\<lambda>j. status (heap s j) = Pending) (queue s)")
      case None
      with True "1.prems" show ?thesis
        by (simp del: processQueue_tick.simps add: processQueue_tick.simps[of s])
    next
      case (Some r)
      then have "r \<in> set (queue s)" "status (heap s r) = Pending"
        by (auto simp: find_Some_iff)
      with "1.prems" have "wf (processJob_start r s)" by (simp add: wf_start)
      with "1.IH"[OF True Some] have "wf (processQueue_tick (processJob_start r s))" .
      with True Some show ?thesis
        by (simp del: processQueue_tick.simps add: processQueue_tick.simps[of s])
    qed
  qed
qed

lemma settle_fields [simp]:
  "queue (processJob_settle r out s) = queue s"
  "nxt (processJob_settle r out s) = nxt s"
  "maxSize (processJob_settle r out s) = maxSize s"
  "maxConcurrent (processJob_settle r out s) = maxConcurrent s"
  "invoked (processJob_settle r out s) = invoked s"
  "suspended (processJob_settle r out s) = suspended s"
  by (simp_all add: processJob_settle_def processJob_finally_def processJob_try_def Let_def
      split: outcome.split)

lemma settle_heap:
  "heap (processJob_settle r out s) =
     (heap s)(r := (case out of
        Returned res \<Rightarrow> (heap s r)\<lparr>status := Completed\<rparr>
      | Threw e \<Rightarrow> if attempts (heap s r) < 3 then (heap s r)\<lparr>status := Retrying\<rparr>
                  else (heap s r)\<lparr>status := Failed, error := Some (error_message e)\<rparr>))"
  by (simp add: processJob_settle_def processJob_finally_def processJob_try_def Let_def
      split: outcome.split)

lemma settle_timers:
  "timers (processJob_settle r out s) =
     timers s @ (case out of Returned res \<Rightarrow> []
                 | Threw e \<Rightarrow> if attempts (heap s r) < 3
                     then [(2 ^ attempts (heap s r) * 1000, SetPending r)] else [])
     @ [(5 * 60 * 1000, Evict r)]"
  by (simp add: processJob_settle_def processJob_finally_def processJob_try_def Let_def
      split: outcome.split)

lemma settle_other: "r' \<noteq> r \<Longrightarrow> heap (processJob_settle r out s) r' = heap s r'"
  by (simp add: settle_heap)

lemma settle_priority [simp]: "priority (heap (processJob_settle r out s) r') = priority (heap s r')"
  by (simp add: settle_heap split: outcome.split)

lemma settle_attempts [simp]: "attempts (heap (processJob_settle r out s) r') = attempts (heap s r')"
  by (simp add: settle_heap split: outcome.split)

lemma settle_status:
  "status (heap (processJob_settle r out s) r) =
     (case out of Returned res \<Rightarrow> Completed
      | Threw e \<Rightarrow> if attempts (heap s r) < 3 then Retrying else Failed)"
  by (simp add: settle_heap split: outcome.split)

lemma wf_settle:
  assumes "wf s" "r \<in> set (suspended s)"
  shows "wf (processJob_settle r out (s\<lparr>suspended := remove1 r (suspended s)\<rparr>))"
proof -
  let ?pre = "s\<lparr>suspended := remove1 r (suspended s)\<rparr>"
  let ?s = "processJob_settle r out ?pre"
  have rn: "r < nxt s" using assms by (auto simp: wf_defs)
  have st: "status (heap s r) = Processing" using assms by (auto simp: wf_defs)
  have noretry: "r \<notin> set (retry_refs (timers s))" using assms by (auto simp: wf_defs)
  have dist: "distinct (suspended s)" using assms by (auto simp: wf_defs)
  have "refs_ok ?s" using assms(1) rn
    by (auto simp: wf_def refs_ok_def settle_timers split: outcome.split dest: notin_set_remove1)
  moreover have "before ?s = before s" by (rule before_priority_cong) simp
  then have "ordered ?s" using assms(1) by (simp add: wf_def ordered_def)
  moreover have "susp_ok ?s" using assms(1) dist
    by (auto simp: wf_def susp_ok_def settle_heap)
  moreover have "retry_ok ?s" using assms(1) noretry
    by (auto simp: wf_def retry_ok_def settle_timers settle_heap split: outcome.split)
  moreover have "counted ?s" using assms(1) by (auto simp: wf_def counted_def)
  moreover have "bounded ?s" using assms(1) by (auto simp: wf_def bounded_def)
  ultimately show ?thesis by (simp add: wf_def)
qed


lemma retry_refs_nth:
  assumes "k < length ts"
  shows "retry_refs ts = retry_refs (take k ts) @ retry_refs [ts ! k] @ retry_refs (drop (Suc k) ts)"
proof -
  have "ts = take k ts @ [ts ! k] @ drop (Suc k) ts"
    using assms by (simp add: id_take_nth_drop)
  then have "retry_refs ts = retry_refs (take k ts @ [ts ! k] @ drop (Suc k) ts)" by simp
  then show ?thesis by (simp only: retry_refs_append)
qed

lemma retry_refs_splice_out:
  "retry_refs (splice_out k ts) = retry_refs (take k ts) @ retry_refs (drop (Suc k) ts)"
  by (simp add: splice_out_def)

lemma sorted_wrt_splice_out: "sorted_wrt R xs \<Longrightarrow> sorted_wrt R (splice_out k xs)"
proof -
  assume a: "sorted_wrt R xs"
  have "xs = take k xs @ drop k xs" by simp
  with a have "sorted_wrt R (take k xs @ drop k xs)" by simp
  moreover have "set (drop (Suc k) xs) \<subseteq> set (drop k xs)"
    by (metis drop_Suc set_drop_subset tl_drop drop_tl list.set_sel(2) subsetI drop_eq_Nil2 drop_all in_set_dropD set_drop_subset_set_drop le_SucI order_refl)
  moreover have "sorted_wrt R (drop (Suc k) xs)" using a by (simp add: sorted_wrt_drop)
  ultimately show ?thesis
    unfolding splice_out_def sorted_wrt_append by auto
qed

lemma set_splice_out: "set (splice_out k xs) \<subseteq> set xs"
  unfolding splice_out_def by (auto dest: in_set_takeD in_set_dropD)

lemma length_splice_out: "length (splice_out k xs) \<le> length xs"
  unfolding splice_out_def by simp

lemma evict_fields:
  "heap (run_timer (Evict r) s) = heap s"
  "nxt (run_timer (Evict r) s) = nxt s"
  "suspended (run_timer (Evict r) s) = suspended s"
  "invoked (run_timer (Evict r) s) = invoked s"
  "maxSize (run_timer (Evict r) s) = maxSize s"
  "maxConcurrent (run_timer (Evict r) s) = maxConcurrent s"
  "timers (run_timer (Evict r) s) = timers s"
  by (simp_all split: option.splits)

lemma evict_queue:
  "set (queue (run_timer (Evict r) s)) \<subseteq> set (queue s)"
  "length (queue (run_timer (Evict r) s)) \<le> length (queue s)"
  "sorted_wrt R (queue s) \<Longrightarrow> sorted_wrt R (queue (run_timer (Evict r) s))"
  using set_splice_out[of _ "queue s"] length_splice_out[of _ "queue s"]
    sorted_wrt_splice_out[of R "queue s"]
  by (auto split: option.splits)

lemma wf_fire:
  assumes "wf s" "k < length (timers s)"
  shows "wf (run_timer (snd (timers s ! k)) (s\<lparr>timers := splice_out k (timers s)\<rparr>))"
proof (cases "timers s ! k")
  case (Pair d a)
  let ?pre = "s\<lparr>timers := splice_out k (timers s)\<rparr>"
  note nth = retry_refs_nth[OF assms(2)]
  show ?thesis
  proof (cases a)
    case (SetPending r)
    let ?s = "run_timer (SetPending r) ?pre"
    have split: "retry_refs (timers s) = retry_refs (take k (timers s)) @ r # retry_refs (drop (Suc k) (timers s))"
      using nth Pair SetPending by simp
    have dist: "distinct (retry_refs (timers s))" and
      ret: "\<forall>x \<in> set (retry_refs (timers s)). status (heap s x) = Retrying"
      using assms(1) by (auto simp: wf_defs)
    have st: "status (heap s r) = Retrying" using ret split by simp
    have nosusp: "r \<notin> set (suspended s)" using assms(1) st by (auto simp: wf_defs)
    have rest: "r \<notin> set (retry_refs (splice_out k (timers s)))"
      using dist unfolding split retry_refs_splice_out by auto
    have sub: "set (retry_refs (splice_out k (timers s))) \<subseteq> set (retry_refs (timers s))"
      unfolding split retry_refs_splice_out by auto
    have d2: "distinct (retry_refs (splice_out k (timers s)))"
      using dist unfolding split retry_refs_splice_out by auto
    have "refs_ok ?s" using assms(1) sub by (auto simp: wf_def refs_ok_def)
    moreover have "before ?s = before s" by (rule before_priority_cong) simp
    then have "ordered ?s" using assms(1) by (simp add: wf_def ordered_def)
    moreover have "susp_ok ?s" using assms(1) nosusp by (auto simp: wf_def susp_ok_def)
    moreover have "retry_ok ?s" using ret rest sub d2 by (auto simp: retry_ok_def)
    moreover have "counted ?s" using assms(1) by (auto simp: wf_def counted_def)
    moreover have "bounded ?s" using assms(1) by (auto simp: wf_def bounded_def)
    ultimately show ?thesis using Pair SetPending by (simp add: wf_def)
  next
    case (Evict r)
    let ?s = "run_timer (Evict r) ?pre"
    have split: "retry_refs (timers s) = retry_refs (take k (timers s)) @ retry_refs (drop (Suc k) (timers s))"
      using nth Pair Evict by simp
    have h: "heap ?s = heap s" "nxt ?s = nxt s" "suspended ?s = suspended s"
      "invoked ?s = invoked s" "maxSize ?s = maxSize s"
      "retry_refs (timers ?s) = retry_refs (timers s)"
      by (simp_all only: evict_fields) (simp_all add: split retry_refs_splice_out)
    have qset: "set (queue ?s) \<subseteq> set (queue s)"
      using evict_queue(1)[where s = ?pre and r = r] by (simp del: run_timer.simps)
    have qlen: "length (queue ?s) \<le> length (queue s)"
      using evict_queue(2)[where s = ?pre and r = r] by (simp del: run_timer.simps)
    have qsort: "sorted_wrt (before s) (queue ?s)" if "sorted_wrt (before s) (queue s)"
      using that evict_queue(3)[where s = ?pre and r = r and R = "before s"]
      by (simp del: run_timer.simps)
    have "refs_ok ?s" using assms(1) qset
      unfolding wf_def refs_ok_def h by blast
    moreover have "before ?s = before s" by (rule before_priority_cong) (simp only: h)
    then have "ordered ?s" using assms(1) qsort
      by (simp only: wf_def ordered_def)
    moreover have "susp_ok ?s" using assms(1) unfolding wf_def susp_ok_def h by simp
    moreover have "retry_ok ?s" using assms(1) unfolding wf_def retry_ok_def h by simp
    moreover have "counted ?s" using assms(1) unfolding wf_def counted_def h by simp
    moreover have "bounded ?s" using assms(1) qlen
      unfolding wf_def bounded_def h by linarith
    ultimately show ?thesis using Pair Evict by (simp add: wf_def)
  qed
qed

lemma wf_exec: "wf s \<Longrightarrow> wf (exec s a)"
  by (cases a) (simp_all add: wf_addJob wf_tick wf_settle wf_fire del: processQueue_tick.simps run_timer.simps)

lemma wf_run: "wf s \<Longrightarrow> wf (run s acts)"
  unfolding run_def by (induction acts arbitrary: s) (simp_all add: wf_exec del: exec.simps)


lemma tick_keeps:
  "status (heap s r) \<noteq> Pending \<Longrightarrow>
   heap (processQueue_tick s) r = heap s r \<and>
   count_list (invoked (processQueue_tick s)) r = count_list (invoked s) r"
proof (induction s rule: processQueue_tick.induct)
  case (1 s)
  show ?case
  proof (cases "int (length (processing s)) < maxConcurrent s \<and> 0 < length (queue s)")
    case False
    then show ?thesis by (simp del: processQueue_tick.simps add: processQueue_tick.simps[of s])
  next
    case True
    show ?thesis
    proof (cases "find (\<lambda>j. status (heap s j) = Pending) (queue s)")
      case None
      with True show ?thesis
        by (simp del: processQueue_tick.simps add: processQueue_tick.simps[of s])
    next
      case (Some r')
      then have "status (heap s r') = Pending" by (auto simp: find_Some_iff)
      with "1.prems" have ne: "r' \<noteq> r" by auto
      then have "status (heap (processJob_start r' s) r) \<noteq> Pending" using "1.prems" by simp
      from "1.IH"[OF True Some this] ne True Some show ?thesis
        by (simp del: processQueue_tick.simps add: processQueue_tick.simps[of s])
    qed
  qed
qed

lemma tick_fields:
  "nxt (processQueue_tick s) = nxt s \<and> maxSize (processQueue_tick s) = maxSize s \<and>
   queue (processQueue_tick s) = queue s \<and> timers (processQueue_tick s) = timers s \<and>
   completed (processQueue_tick s) = completed s"
proof (induction s rule: processQueue_tick.induct)
  case (1 s)
  show ?case
  proof (cases "int (length (processing s)) < maxConcurrent s \<and> 0 < length (queue s)")
    case False
    then show ?thesis by (simp del: processQueue_tick.simps add: processQueue_tick.simps[of s])
  next
    case True
    show ?thesis
    proof (cases "find (\<lambda>j. status (heap s j) = Pending) (queue s)")
      case None
      with True show ?thesis
        by (simp del: processQueue_tick.simps add: processQueue_tick.simps[of s])
    next
      case (Some r')
      from "1.IH"[OF True Some] True Some show ?thesis
        by (simp del: processQueue_tick.simps add: processQueue_tick.simps[of s])
    qed
  qed
qed

lemma exec_keeps_failed:
  assumes "wf s" "r < nxt s" "status (heap s r) = Failed"
  shows "heap (exec s a) r = heap s r \<and>
         count_list (invoked (exec s a)) r = count_list (invoked s) r \<and>
         r < nxt (exec s a)"
proof (cases a)
  case (AddJob i t job)
  show ?thesis
  proof (cases "int (length (queue s)) < maxSize s")
    case True
    with assms(2) show ?thesis by (simp add: AddJob addJob_room)
  next
    case False
    with assms(2) show ?thesis by (simp add: AddJob addJob_full)
  qed
next
  case Tick
  with assms tick_keeps[of s r] tick_fields[of s] show ?thesis
    by (simp del: processQueue_tick.simps)
next
  case (Settle r' out)
  show ?thesis
  proof (cases "r' \<in> set (suspended s)")
    case True
    with assms have "r' \<noteq> r" by (auto simp: wf_defs)
    with True assms(2) show ?thesis by (simp add: Settle settle_other)
  next
    case False
    with assms(2) show ?thesis by (simp add: Settle)
  qed
next
  case (Fire k)
  show ?thesis
  proof (cases "k < length (timers s)")
    case False
    with assms(2) show ?thesis by (simp add: Fire)
  next
    case True
    obtain d ta where p: "timers s ! k = (d, ta)" by (cases "timers s ! k")
    show ?thesis
    proof (cases ta)
      case (SetPending r')
      have "r' \<in> set (retry_refs (timers s))"
        using retry_refs_nth[OF True] p SetPending by simp
      with assms have "r' \<noteq> r" by (auto simp: wf_defs)
      with True assms(2) p SetPending show ?thesis by (simp add: Fire)
    next
      case (Evict r')
      with True assms(2) p show ?thesis
        by (simp add: Fire evict_fields del: run_timer.simps)
    qed
  qed
qed

lemma run_keeps_failed:
  "wf s \<Longrightarrow> r < nxt s \<Longrightarrow> status (heap s r) = Failed \<Longrightarrow>
   heap (run s acts) r = heap s r \<and> count_list (invoked (run s acts)) r = count_list (invoked s) r"
proof (induction acts arbitrary: s)
  case Nil
  then show ?case by (simp add: run_def)
next
  case (Cons a acts)
  from exec_keeps_failed[OF Cons.prems, of a]
  have k: "heap (exec s a) r = heap s r" "count_list (invoked (exec s a)) r = count_list (invoked s) r"
    "r < nxt (exec s a)" by auto
  have "wf (exec s a)" using Cons.prems(1) by (rule wf_exec)
  from Cons.IH[OF this k(3)] k Cons.prems(3) show ?case
    by (simp add: run_def del: exec.simps)
qed

lemma maxSize_exec: "maxSize (exec s a) = maxSize s"
proof (cases a)
  case (AddJob i t job)
  then show ?thesis by (simp add: addJob_def Let_def)
next
  case Tick
  then show ?thesis using tick_fields[of s] by (simp del: processQueue_tick.simps)
next
  case (Settle r out)
  then show ?thesis by simp
next
  case (Fire k)
  then show ?thesis
    by (cases "snd (timers s ! k)") (simp_all add: evict_fields del: run_timer.simps(2))
qed

lemma maxSize_run: "maxSize (run s acts) = maxSize s"
  unfolding run_def by (induction acts arbitrary: s) (simp_all add: maxSize_exec del: exec.simps)

section \<open>Priority job queue: results\<close>

definition job_a :: JobInput where
  "job_a = \<lparr>repository = ''org/docs'', files = [], priority = 5\<rparr>"

definition job_b :: JobInput where
  "job_b = \<lparr>repository = ''org/docs'', files = [], priority = 9\<rparr>"

definition boom :: thrown where "boom = ErrorObject ''store unavailable''"

definition three_failures :: "action list" where
  "three_failures = [AddJob ''job_1'' 0 job_a, Tick, Settle 0 (Threw boom), Fire 0,
     Tick, Settle 0 (Threw boom), Fire 1, Tick]"

text \<open>
  C1: when the queue holds at least \<open>maxSize\<close> jobs, \<open>addJob\<close> throws the capacity error
  and leaves the whole state as it was; otherwise it returns the new id and the queue grows
  by one, staying within \<open>maxSize\<close>; and in no run of a queue built with a non-negative
  maximum does the queue hold more than \<open>maxSize\<close> jobs.
\<close>

theorem addJob_capacity:
  "(maxSize s \<le> int (length (queue s)) \<longrightarrow> addJob i t job s = (Inl QueueAtMaximumCapacity, s)) \<and>
   (int (length (queue s)) < maxSize s \<longrightarrow>
      fst (addJob i t job s) = Inr i \<and>
      length (queue (snd (addJob i t job s))) = Suc (length (queue s)) \<and>
      int (length (queue (snd (addJob i t job s)))) \<le> maxSize s) \<and>
   (0 \<le> ms \<longrightarrow> int (length (queue (run (new_JobQueue mc ms) acts))) \<le> ms)"
proof (intro conjI impI)
  assume "maxSize s \<le> int (length (queue s))"
  then show "addJob i t job s = (Inl QueueAtMaximumCapacity, s)" by (rule addJob_full)
next
  assume room: "int (length (queue s)) < maxSize s"
  let ?P = "\<lambda>j. \<not> priority (heap s j) < priority job"
  have len: "length (takeWhile ?P (queue s)) + length (dropWhile ?P (queue s)) = length (queue s)"
    by (metis length_append takeWhile_dropWhile_id)
  show "fst (addJob i t job s) = Inr i" by (simp add: addJob_room[OF room])
  show "length (queue (snd (addJob i t job s))) = Suc (length (queue s))"
    using len by (simp add: addJob_room[OF room])
  then show "int (length (queue (snd (addJob i t job s)))) \<le> maxSize s"
    using room by simp
next
  assume "0 \<le> ms"
  have "wf (run (new_JobQueue mc ms) acts)" by (intro wf_run wf_new)
  then have "bounded (run (new_JobQueue mc ms) acts)" by (simp add: wf_def)
  moreover have "maxSize (run (new_JobQueue mc ms) acts) = ms"
    by (simp add: maxSize_run new_JobQueue_def)
  ultimately show "int (length (queue (run (new_JobQueue mc ms) acts))) \<le> ms"
    using \<open>0 \<le> ms\<close> by (simp add: bounded_def)
qed

theorem addJob_capacity_witness:
  "fst (addJob ''job_1'' 0 job_a (new_JobQueue 3 1)) = Inr ''job_1'' \<and>
   length (queue (snd (addJob ''job_1'' 0 job_a (new_JobQueue 3 1)))) = 1 \<and>
   addJob ''job_2'' 1 job_b (snd (addJob ''job_1'' 0 job_a (new_JobQueue 3 1)))
     = (Inl QueueAtMaximumCapacity, snd (addJob ''job_1'' 0 job_a (new_JobQueue 3 1))) \<and>
   int (length (queue (run (new_JobQueue 3 1)
      [AddJob ''job_1'' 0 job_a, AddJob ''job_2'' 1 job_b]))) \<le> 1"
proof -
  let ?q = "new_JobQueue 3 1"
  let ?q1 = "snd (addJob ''job_1'' 0 job_a ?q)"
  have room: "int (length (queue ?q)) < maxSize ?q"
    by (simp add: new_JobQueue_def)
  have full: "maxSize ?q1 \<le> int (length (queue ?q1))"
    by (simp add: addJob_def new_JobQueue_def Let_def)
  from addJob_capacity[of ?q "''job_1''" 0 job_a 1 3 "[AddJob ''job_1'' 0 job_a, AddJob ''job_2'' 1 job_b]"] room
  have a: "fst (addJob ''job_1'' 0 job_a ?q) = Inr ''job_1''"
    "length (queue ?q1) = Suc (length (queue ?q))"
    "int (length (queue (run ?q [AddJob ''job_1'' 0 job_a, AddJob ''job_2'' 1 job_b]))) \<le> 1"
    by simp_all
  from addJob_capacity[of ?q1 "''job_2''" 1 job_b 0 0 "[]"] full
  have b: "addJob ''job_2'' 1 job_b ?q1 = (Inl QueueAtMaximumCapacity, ?q1)"
    by blast
  from a b show ?thesis by (simp add: new_JobQueue_def)
qed

text \<open>
  C2: in every run the queue is sorted by non-increasing priority, and jobs of equal priority
  stand in the order of their references, which are handed out in admission order (\<open>nxt\<close>
  is the reference of the next admitted job and exceeds every reference in the queue);
  \<open>addJob\<close> puts the new job at the first position whose job has a strictly lower
  priority, and at the end when there is none.
\<close>

theorem queue_priority_order:
  "sorted_wrt (\<lambda>a b. priority (heap (run (new_JobQueue mc ms) acts) b)
                     \<le> priority (heap (run (new_JobQueue mc ms) acts) a))
     (queue (run (new_JobQueue mc ms) acts)) \<and>
   sorted_wrt (\<lambda>a b. priority (heap (run (new_JobQueue mc ms) acts) a)
                     = priority (heap (run (new_JobQueue mc ms) acts) b) \<longrightarrow> a < b)
     (queue (run (new_JobQueue mc ms) acts)) \<and>
   (\<forall>j \<in> set (queue (run (new_JobQueue mc ms) acts)). j < nxt (run (new_JobQueue mc ms) acts)) \<and>
   (int (length (queue s)) < maxSize s \<longrightarrow>
      (\<exists>front back.
         queue s = front @ back \<and>
         queue (snd (addJob i t job s)) = front @ nxt s # back \<and>
         (\<forall>j \<in> set front. \<not> priority (heap s j) < priority job) \<and>
         (back \<noteq> [] \<longrightarrow> priority (heap s (hd back)) < priority job)) \<and>
      priority (heap (snd (addJob i t job s)) (nxt s)) = priority job \<and>
      nxt (snd (addJob i t job s)) = Suc (nxt s))"
proof (intro conjI impI)
  let ?s = "run (new_JobQueue mc ms) acts"
  have wf: "wf ?s" by (intro wf_run wf_new)
  then have srt: "sorted_wrt (before ?s) (queue ?s)" by (simp add: wf_def ordered_def)
  show "sorted_wrt (\<lambda>a b. priority (heap ?s b) \<le> priority (heap ?s a)) (queue ?s)"
    by (rule sorted_wrt_mono_rel[OF _ srt]) (auto simp: before_def)
  show "sorted_wrt (\<lambda>a b. priority (heap ?s a) = priority (heap ?s b) \<longrightarrow> a < b) (queue ?s)"
    by (rule sorted_wrt_mono_rel[OF _ srt]) (auto simp: before_def)
  show "\<forall>j \<in> set (queue ?s). j < nxt ?s" using wf by (simp add: wf_def refs_ok_def)
next
  assume room: "int (length (queue s)) < maxSize s"
  let ?P = "\<lambda>j. \<not> priority (heap s j) < priority job"
  show "\<exists>front back.
         queue s = front @ back \<and>
         queue (snd (addJob i t job s)) = front @ nxt s # back \<and>
         (\<forall>j \<in> set front. \<not> priority (heap s j) < priority job) \<and>
         (back \<noteq> [] \<longrightarrow> priority (heap s (hd back)) < priority job)"
  proof (intro exI conjI)
    show "queue s = takeWhile ?P (queue s) @ dropWhile ?P (queue s)" by simp
    show "queue (snd (addJob i t job s)) = takeWhile ?P (queue s) @ nxt s # dropWhile ?P (queue s)"
      by (simp add: addJob_room[OF room])
    show "\<forall>j \<in> set (takeWhile ?P (queue s)). \<not> priority (heap s j) < priority job"
      by (auto dest: set_takeWhileD)
    show "dropWhile ?P (queue s) \<noteq> [] \<longrightarrow> priority (heap s (hd (dropWhile ?P (queue s)))) < priority job"
      using hd_dropWhile[of ?P "queue s"] by blast
  qed
  show "priority (heap (snd (addJob i t job s)) (nxt s)) = priority job"
    by (simp add: addJob_room[OF room])
  show "nxt (snd (addJob i t job s)) = Suc (nxt s)"
    by (simp add: addJob_room[OF room])
qed

theorem queue_priority_order_witness:
  "queue (run (new_JobQueue 3 10)
     [AddJob ''job_1'' 100 job_a, AddJob ''job_2'' 200 job_b, AddJob ''job_3'' 300 job_a]) = [1, 0, 2] \<and>
   queue (snd (addJob ''job_4'' 400 job_b (run (new_JobQueue 3 10)
     [AddJob ''job_1'' 100 job_a, AddJob ''job_2'' 200 job_b, AddJob ''job_3'' 300 job_a])))
     = [1, 3, 0, 2] \<and>
   sorted_wrt (\<lambda>a b. priority (heap (run (new_JobQueue 3 10)
       [AddJob ''job_1'' 100 job_a, AddJob ''job_2'' 200 job_b, AddJob ''job_3'' 300 job_a]) b)
     \<le> priority (heap (run (new_JobQueue 3 10)
       [AddJob ''job_1'' 100 job_a, AddJob ''job_2'' 200 job_b, AddJob ''job_3'' 300 job_a]) a))
     [1, 0, 2]"
proof -
  let ?acts = "[AddJob ''job_1'' 100 job_a, AddJob ''job_2'' 200 job_b, AddJob ''job_3'' 300 job_a]"
  let ?s = "run (new_JobQueue 3 10) ?acts"
  have q: "queue ?s = [1, 0, 2]"
    by (simp add: run_def addJob_def new_JobQueue_def job_a_def job_b_def Let_def splice_in_def)
  have n: "nxt ?s = 3" "maxSize ?s = 10"
    by (simp_all add: run_def addJob_def new_JobQueue_def job_a_def job_b_def Let_def
        splice_in_def)
  have room: "int (length (queue ?s)) < maxSize ?s"
    by (simp add: q n)
  have p: "priority (heap ?s 1) = 9" "priority (heap ?s 0) = 5" "priority (heap ?s 2) = 5"
    by (simp_all add: run_def addJob_def new_JobQueue_def job_a_def job_b_def Let_def
        splice_in_def)
  note inst = queue_priority_order[of 3 10 ?acts ?s "''job_4''" 400 job_b]
  from inst have srt: "sorted_wrt (\<lambda>a b. priority (heap ?s b) \<le> priority (heap ?s a)) (queue ?s)"
    by blast
  from inst room obtain pre post where
    fb: "queue ?s = pre @ post" "queue (snd (addJob ''job_4'' 400 job_b ?s)) = pre @ nxt ?s # post"
      "\<forall>j \<in> set pre. \<not> priority (heap ?s j) < priority job_b"
      "post \<noteq> [] \<longrightarrow> priority (heap ?s (hd post)) < priority job_b"
    by blast
  have "pre = [1]"
  proof -
    from fb(1) q have "pre @ post = [1, 0, 2]" by simp
    then consider "pre = []" | "pre = [1]" | "pre = [1, 0]" | "pre = [1, 0, 2]"
      by (auto simp: append_eq_Cons_conv)
    then show ?thesis
    proof cases
      case 1
      with fb(1,4) q p show ?thesis by (simp add: job_b_def)
    next
      case 2
      then show ?thesis .
    next
      case 3
      with fb(3) p show ?thesis by (simp add: job_b_def)
    next
      case 4
      with fb(3) p show ?thesis by (simp add: job_b_def)
    qed
  qed
  with fb(1,2) q n have "queue (snd (addJob ''job_4'' 400 job_b ?s)) = [1, 3, 0, 2]" by simp
  with q srt show ?thesis by simp
qed

text \<open>
  What \<open>processJob\<close> is written to do (lines 192--213). In every run, the attempt counter
  of every job is the number of Batch Processor calls made for it. If the awaited call of a
  suspended \<open>processJob\<close> were rejected with the counter below 3, the job would become
  \<open>retrying\<close> and a timer of \<open>2 ^ attempts\<close> seconds would be registered whose firing makes
  it \<open>pending\<close>; with the counter at 3, the job would become \<open>failed\<close>, the error message
  would be stored on the job and in the completion map under its id, and whatever happened
  afterwards the job would stay \<open>failed\<close> with three Batch Processor calls made for it.
  Whether the awaited call is ever rejected is settled with the Batch Processor below.
\<close>

lemma processJob_catch_branch:
  "(\<forall>r. attempts (heap (run (new_JobQueue mc ms) acts) r)
        = count_list (invoked (run (new_JobQueue mc ms) acts)) r) \<and>
   (r \<in> set (suspended (run (new_JobQueue mc ms) acts)) \<and>
    attempts (heap (run (new_JobQueue mc ms) acts) r) < 3 \<longrightarrow>
      status (heap (exec (run (new_JobQueue mc ms) acts) (Settle r (Threw e))) r) = Retrying \<and>
      (\<exists>k < length (timers (exec (run (new_JobQueue mc ms) acts) (Settle r (Threw e)))).
         timers (exec (run (new_JobQueue mc ms) acts) (Settle r (Threw e))) ! k
           = (2 ^ attempts (heap (run (new_JobQueue mc ms) acts) r) * 1000, SetPending r) \<and>
         status (heap (exec (exec (run (new_JobQueue mc ms) acts) (Settle r (Threw e))) (Fire k)) r)
           = Pending)) \<and>
   (r \<in> set (suspended (run (new_JobQueue mc ms) acts)) \<and>
    attempts (heap (run (new_JobQueue mc ms) acts) r) = 3 \<longrightarrow>
      status (heap (exec (run (new_JobQueue mc ms) acts) (Settle r (Threw e))) r) = Failed \<and>
      error (heap (exec (run (new_JobQueue mc ms) acts) (Settle r (Threw e))) r)
        = Some (error_message e) \<and>
      completed (exec (run (new_JobQueue mc ms) acts) (Settle r (Threw e)))
          (jid (heap (run (new_JobQueue mc ms) acts) r))
        = Some \<lparr>cstatus = ''failed'', cresult = None, cerror = Some (error_message e)\<rparr> \<and>
      (\<forall>more.
         status (heap (run (exec (run (new_JobQueue mc ms) acts) (Settle r (Threw e))) more) r)
           = Failed \<and>
         count_list (invoked (run (exec (run (new_JobQueue mc ms) acts) (Settle r (Threw e))) more)) r
           = 3))"
proof -
  define s where "s = run (new_JobQueue mc ms) acts"
  define s' where "s' = exec s (Settle r (Threw e))"
  have wf: "wf s" unfolding s_def by (intro wf_run wf_new)
  have cnt: "\<forall>r. attempts (heap s r) = count_list (invoked s) r"
    using wf by (simp add: wf_def counted_def)
  have retry: "status (heap s' r) = Retrying \<and>
      (\<exists>k < length (timers s').
         timers s' ! k = (2 ^ attempts (heap s r) * 1000, SetPending r) \<and>
         status (heap (exec s' (Fire k)) r) = Pending)"
    if susp: "r \<in> set (suspended s)" and lt: "attempts (heap s r) < 3"
  proof
    show "status (heap s' r) = Retrying"
      using susp lt by (simp add: s'_def settle_status)
    have tm: "timers s' = timers s @ [(2 ^ attempts (heap s r) * 1000, SetPending r), (5 * 60 * 1000, Evict r)]"
      using susp lt by (simp add: s'_def settle_timers)
    show "\<exists>k < length (timers s').
         timers s' ! k = (2 ^ attempts (heap s r) * 1000, SetPending r) \<and>
         status (heap (exec s' (Fire k)) r) = Pending"
    proof (intro exI[of _ "length (timers s)"] conjI)
      show "length (timers s) < length (timers s')" by (simp add: tm)
      show nth: "timers s' ! length (timers s) = (2 ^ attempts (heap s r) * 1000, SetPending r)"
        by (simp add: tm nth_append)
      show "status (heap (exec s' (Fire (length (timers s)))) r) = Pending"
        using nth by (simp add: tm)
    qed
  qed
  have failed: "status (heap s' r) = Failed \<and>
      error (heap s' r) = Some (error_message e) \<and>
      completed s' (jid (heap s r))
        = Some \<lparr>cstatus = ''failed'', cresult = None, cerror = Some (error_message e)\<rparr> \<and>
      (\<forall>more. status (heap (run s' more) r) = Failed \<and> count_list (invoked (run s' more)) r = 3)"
    if susp: "r \<in> set (suspended s)" and eq: "attempts (heap s r) = 3"
  proof (intro conjI allI)
    show st: "status (heap s' r) = Failed"
      using susp eq by (simp add: s'_def settle_status)
    show "error (heap s' r) = Some (error_message e)"
      using susp eq by (simp add: s'_def settle_heap)
    show "completed s' (jid (heap s r))
        = Some \<lparr>cstatus = ''failed'', cresult = None, cerror = Some (error_message e)\<rparr>"
      using susp eq
      by (simp add: s'_def processJob_settle_def processJob_finally_def processJob_try_def Let_def)
    have wf': "wf s'" unfolding s'_def using wf by (rule wf_exec)
    have rn: "r < nxt s'" using wf susp by (auto simp: s'_def wf_def refs_ok_def)
    have c3: "count_list (invoked s') r = 3"
      using cnt eq susp by (simp add: s'_def)
    fix more
    from run_keeps_failed[OF wf' rn st, of more] st c3
    show "status (heap (run s' more) r) = Failed" and "count_list (invoked (run s' more)) r = 3"
      by simp_all
  qed
  from cnt retry failed show ?thesis
    unfolding s'_def s_def by blast
qed

lemma processJob_catch_branch_example:
  "suspended (run (new_JobQueue 3 10) [AddJob ''job_1'' 0 job_a, Tick]) = [0] \<and>
   attempts (heap (run (new_JobQueue 3 10) [AddJob ''job_1'' 0 job_a, Tick]) 0) = 1 \<and>
   count_list (invoked (run (new_JobQueue 3 10) [AddJob ''job_1'' 0 job_a, Tick])) 0 = 1 \<and>
   status (heap (exec (run (new_JobQueue 3 10) [AddJob ''job_1'' 0 job_a, Tick])
     (Settle 0 (Threw boom))) 0) = Retrying \<and>
   suspended (run (new_JobQueue 3 10) three_failures) = [0] \<and>
   attempts (heap (run (new_JobQueue 3 10) three_failures) 0) = 3 \<and>
   status (heap (exec (run (new_JobQueue 3 10) three_failures) (Settle 0 (Threw boom))) 0)
     = Failed \<and>
   error (heap (exec (run (new_JobQueue 3 10) three_failures) (Settle 0 (Threw boom))) 0)
     = Some ''store unavailable'' \<and>
   count_list (invoked (run (exec (run (new_JobQueue 3 10) three_failures)
     (Settle 0 (Threw boom))) [Fire 0, Tick, Tick])) 0 = 3"
proof -
  let ?one = "run (new_JobQueue 3 10) [AddJob ''job_1'' 0 job_a, Tick]"
  let ?three = "run (new_JobQueue 3 10) three_failures"
  have one: "suspended ?one = [0]" "attempts (heap ?one 0) = 1"
    by (simp_all add: run_def addJob_def new_JobQueue_def job_a_def Let_def
        processJob_start_def set_add_def)
  have three: "suspended ?three = [0]" "attempts (heap ?three 0) = 3"
    by (simp_all add: three_failures_def run_def addJob_def new_JobQueue_def job_a_def Let_def
        splice_out_def processJob_start_def set_add_def set_delete_def processJob_settle_def
        processJob_try_def processJob_finally_def boom_def)
  from processJob_catch_branch[of 3 10 "[AddJob ''job_1'' 0 job_a, Tick]" 0 boom] one
  have a: "count_list (invoked ?one) 0 = 1"
    "status (heap (exec ?one (Settle 0 (Threw boom))) 0) = Retrying"
    by (simp_all del: exec.simps)
  from processJob_catch_branch[of 3 10 three_failures 0 boom] three
  have b: "status (heap (exec ?three (Settle 0 (Threw boom))) 0) = Failed"
    "error (heap (exec ?three (Settle 0 (Threw boom))) 0) = Some ''store unavailable''"
    "count_list (invoked (run (exec ?three (Settle 0 (Threw boom))) [Fire 0, Tick, Tick])) 0 = 3"
    by (simp_all del: exec.simps add: boom_def)
  from one three a b show ?thesis by simp
qed

section \<open>Batch processor (class \<open>BatchProcessor\<close>, lines 265--582)\<close>

subsection \<open>The remote index service and the platform\<close>

text \<open>
  The calls made on the OpenAI client, as the Batch Processor makes them. A file is named in
  \<open>FilesCreate\<close> by the path of the temporary file that is streamed.
\<close>

datatype api_call =
  VsFilesList | FilesRetrieve string | VsFilesDel string | FilesDel string
| FilesCreate string | VsFilesCreate string

text \<open>
  What the service answers. Every call may throw; a call that throws is given by \<open>None\<close> or
  by the thrown value. \<open>store_list_throws\<close> is what \<open>vectorStores.list\<close> throws, if it does,
  \<open>store_created\<close> the id \<open>vectorStores.create\<close> returns for a name; \<open>listed\<close> are the ids
  of the entries \<open>vectorStores.files.list\<close> returns, \<open>stored_name\<close> the \<open>filename\<close> \<open>files.retrieve\<close> returns for an id,
  \<open>uploaded\<close> the id \<open>files.create\<close> returns for a temporary file.
\<close>

record Service =
  store_list_throws :: "thrown option"
  store_created :: "string \<Rightarrow> thrown + string"
  listed :: "string list option"
  stored_name :: "string \<Rightarrow> string option"
  vs_del_throws :: "string \<Rightarrow> thrown option"
  file_del_throws :: "string \<Rightarrow> thrown option"
  uploaded :: "string \<Rightarrow> thrown + string"
  attach_throws :: "string \<Rightarrow> thrown option"

text \<open>
  Node's \<open>path.join\<close> and \<open>path.basename\<close>, the configured temporary directory, and
  whether \<open>fs.writeFile\<close> throws for a path.
\<close>

record Platform =
  path_join :: "string \<Rightarrow> string \<Rightarrow> string"
  path_basename :: "string \<Rightarrow> string"
  tempDir :: string
  write_throws :: "string \<Rightarrow> thrown option"

subsection \<open>File names\<close>

text \<open>\<open>filename.replace(/[\/\\]/g, "_")\<close>; \<open>CHR 0x5C\<close> is the backslash.\<close>

definition replaceSeparators :: "string \<Rightarrow> string" where
  "replaceSeparators n = map (\<lambda>c. if c = CHR ''/'' \<or> c = CHR 0x5C then CHR ''_'' else c) n"

text \<open>
  The \<open>encodedFilename\<close> of lines 406--409 and 478--483: separators replaced, and a final
  \<open>.mdx\<close> rewritten to \<open>.md\<close>.
\<close>

definition encodeFilename :: "string \<Rightarrow> string" where
  "encodeFilename n =
     (let encodedFilename = replaceSeparators n
      in if suffix ''.mdx'' encodedFilename
         then take (length encodedFilename - 4) encodedFilename @ ''.md''
         else encodedFilename)"

subsection \<open>Partition of the files (\<open>processBatchFiles\<close>, lines 352--355)\<close>

definition toRemove :: "FileChange list \<Rightarrow> FileChange list" where
  "toRemove fs = filter (\<lambda>f. fstatus f = Removed) fs"

definition toAddOrUpdate :: "FileChange list \<Rightarrow> FileChange list" where
  "toAddOrUpdate fs = filter (\<lambda>f. fstatus f \<noteq> Removed \<and> truthy (content f)) fs"

subsection \<open>Removal (\<open>batchRemoveFiles\<close>, lines 374--453)\<close>

text \<open>The loop of lines 393--400: a later entry with the same name replaces an earlier one,
  an entry whose details cannot be retrieved is skipped.\<close>

fun buildFileMap :: "Service \<Rightarrow> string list \<Rightarrow> (string \<rightharpoonup> string) \<Rightarrow> (string \<rightharpoonup> string)" where
  "buildFileMap sv [] m = m"
| "buildFileMap sv (fid # rest) m =
     buildFileMap sv rest (case stored_name sv fid of None \<Rightarrow> m | Some n \<Rightarrow> m(n \<mapsto> fid))"

definition success :: "string \<Rightarrow> FileResult" where
  "success n = \<lparr>rfilename = n, rstatus = Success, rerror = None\<rparr>"

definition failure :: "string \<Rightarrow> string \<Rightarrow> FileResult" where
  "failure n msg = \<lparr>rfilename = n, rstatus = FailedResult, rerror = Some msg\<rparr>"

text \<open>
  One callback of \<open>files.map(async (file) => ...)\<close> (lines 403--427): the result it pushes
  and the calls it makes. \<open>if (fileId)\<close> is the truthiness of a string.
\<close>

definition removeFile :: "Service \<Rightarrow> (string \<rightharpoonup> string) \<Rightarrow> FileChange \<Rightarrow> FileResult \<times> api_call list" where
  "removeFile sv m file =
     (let encodedFilename = encodeFilename (filename file);
          fileId = m encodedFilename
      in if truthy fileId then
           (case vs_del_throws sv (the fileId) of
              Some e \<Rightarrow> (failure (filename file) (error_message e), [VsFilesDel (the fileId)])
            | None \<Rightarrow>
               (case file_del_throws sv (the fileId) of
                  Some e \<Rightarrow> (failure (filename file) (error_message e),
                             [VsFilesDel (the fileId), FilesDel (the fileId)])
                | None \<Rightarrow> (success (filename file),
                            [VsFilesDel (the fileId), FilesDel (the fileId)])))
         else (success (filename file), []))"

text \<open>The \<open>catch\<close> of lines 440--452: every file without a result so far is marked failed.\<close>

fun markAllFailed :: "FileChange list \<Rightarrow> FileResult list \<Rightarrow> FileResult list" where
  "markAllFailed [] res = res"
| "markAllFailed (file # rest) res =
     markAllFailed rest
       (if find (\<lambda>r. rfilename r = filename file) res = None
        then res @ [failure (filename file) ''Batch remove operation failed'']
        else res)"

text \<open>
  \<open>batchRemoveFiles\<close> (\<open>res\<close> is the array \<open>results\<close>): the array after the call and the calls made on the service.
  The callbacks run concurrently; the model lists their results and calls in the order of
  the files. The pauses between the groups of five are not part of this trace.
\<close>

definition batchRemoveFiles ::
  "Service \<Rightarrow> string \<Rightarrow> FileChange list \<Rightarrow> FileResult list \<Rightarrow> FileResult list \<times> api_call list" where
  "batchRemoveFiles sv vsId fs res =
     (case listed sv of
        None \<Rightarrow> (markAllFailed fs res, [VsFilesList])
      | Some ids \<Rightarrow>
          let vectorStoreFileMap = buildFileMap sv ids Map.empty;
              removed = map (removeFile sv vectorStoreFileMap) fs
          in (res @ map fst removed,
              VsFilesList # map FilesRetrieve ids @ concat (map snd removed)))"

subsection \<open>Upserts (\<open>batchAddOrUpdateFiles\<close>, lines 455--561)\<close>

text \<open>\<open>removeExistingFile\<close> (lines 544--561) catches everything; the model gives its calls.\<close>

fun removeExisting_loop :: "Service \<Rightarrow> string \<Rightarrow> string list \<Rightarrow> api_call list" where
  "removeExisting_loop sv encodedFilename [] = []"
| "removeExisting_loop sv encodedFilename (fid # rest) =
     FilesRetrieve fid #
     (case stored_name sv fid of
        None \<Rightarrow> []
      | Some n \<Rightarrow>
          if n = encodedFilename then
            VsFilesDel fid # (case vs_del_throws sv fid of Some e \<Rightarrow> [] | None \<Rightarrow> [FilesDel fid])
          else removeExisting_loop sv encodedFilename rest)"

definition removeExistingFile :: "Service \<Rightarrow> string \<Rightarrow> string \<Rightarrow> api_call list" where
  "removeExistingFile sv vsId encodedFilename =
     VsFilesList # (case listed sv of None \<Rightarrow> []
                    | Some ids \<Rightarrow> removeExisting_loop sv encodedFilename ids)"

record TempFile =
  encodedFilename :: string
  tempPath :: string
  tfile :: FileChange

text \<open>\<open>createTemporaryFile\<close> (lines 563--573): the path that is written.\<close>

definition tempFilePath :: "Platform \<Rightarrow> string \<Rightarrow> string" where
  "tempFilePath pf n = path_join pf (tempDir pf) (path_basename pf n)"

text \<open>
  The loop of lines 475--490. \<open>convert\<close> is \<open>convertMdxToMd\<close>. The result is the list
  \<open>tempFiles\<close> with the content written for each, and the error if a write threw (the loop
  stops there).
\<close>

fun createTempFiles ::
  "Platform \<Rightarrow> (jsstring \<Rightarrow> jsstring) \<Rightarrow> FileChange list \<Rightarrow> (TempFile \<times> jsstring) list
     \<Rightarrow> thrown option \<times> (TempFile \<times> jsstring) list" where
  "createTempFiles pf convert [] tempFiles = (None, tempFiles)"
| "createTempFiles pf convert (file # rest) tempFiles =
     (if truthy (content file) then
        let isMdx = suffix ''.mdx'' (replaceSeparators (filename file));
            body = (if isMdx then convert (the (content file)) else the (content file));
            enc = encodeFilename (filename file);
            p = tempFilePath pf enc
        in (case write_throws pf p of
              Some e \<Rightarrow> (Some e, tempFiles)
            | None \<Rightarrow>
                createTempFiles pf convert rest
                  (tempFiles @ [(\<lparr>encodedFilename = enc, tempPath = p, tfile = file\<rparr>, body)]))
      else createTempFiles pf convert rest tempFiles)"

text \<open>
  One callback of \<open>tempFiles.map(async ...)\<close> (lines 493--522): the result it pushes and
  the calls it makes, in order.
\<close>

definition uploadFile :: "Service \<Rightarrow> string \<Rightarrow> TempFile \<Rightarrow> FileResult \<times> api_call list" where
  "uploadFile sv vsId tf =
     (let before_upload = (if fstatus (tfile tf) = Modified
                           then removeExistingFile sv vsId (encodedFilename tf) else [])
      in case uploaded sv (tempPath tf) of
           Inl e \<Rightarrow> (failure (encodedFilename tf) (error_message e),
                     before_upload @ [FilesCreate (tempPath tf)])
         | Inr fid \<Rightarrow>
            (case attach_throws sv fid of
               Some e \<Rightarrow> (failure (encodedFilename tf) (error_message e),
                          before_upload @ [FilesCreate (tempPath tf), VsFilesCreate fid])
             | None \<Rightarrow> (success (encodedFilename tf),
                         before_upload @ [FilesCreate (tempPath tf), VsFilesCreate fid])))"

text \<open>
  What the body of \<open>batchAddOrUpdateFiles\<close> does itself, in order. An \<open>async\<close> function
  called by \<open>map\<close> runs at once up to its first \<open>await\<close>: \<open>Started i c\<close> is the call \<open>c\<close>
  the callback of element \<open>i\<close> makes before it first suspends. \<open>AwaitAll\<close> is
  \<open>await Promise.all\<close> on the promises with these indices, \<open>Sleep\<close> the awaited
  \<open>setTimeout\<close>. When each callback continues after its first \<open>await\<close> is left to
  the event loop and is no part of this trace.
\<close>

datatype step =
  WriteFile string | Started nat api_call | AwaitAll "nat list" | Sleep nat | Unlink string

text \<open>The first call of the upload callback: \<open>removeExistingFile\<close> begins with the
  listing, otherwise \<open>openai.files.create\<close> is called.\<close>

definition first_call :: "TempFile \<Rightarrow> api_call" where
  "first_call tf =
     (if fstatus (tfile tf) = Modified then VsFilesList else FilesCreate (tempPath tf))"

text \<open>The loop of lines 525--534, from index \<open>i\<close>, over \<open>n\<close> promises.\<close>

function upload_waits :: "nat \<Rightarrow> nat \<Rightarrow> step list" where
  "upload_waits n i =
     (if i < n then
        AwaitAll [i ..< min (i + 3) n] #
        (if i + 3 < n then [Sleep 2000] else []) @ upload_waits n (i + 3)
      else [])"
  by pat_completeness auto
termination
  by (relation "measure (\<lambda>(n, i). n - i)") auto

definition batchAddOrUpdateFiles_steps ::
  "Platform \<Rightarrow> (jsstring \<Rightarrow> jsstring) \<Rightarrow> FileChange list \<Rightarrow> thrown option \<times> step list" where
  "batchAddOrUpdateFiles_steps pf convert fs =
     (case createTempFiles pf convert fs [] of
        (Some e, tempFiles) \<Rightarrow>
          (Some e, map (WriteFile \<circ> tempPath \<circ> fst) tempFiles
                   @ map (Unlink \<circ> tempPath \<circ> fst) tempFiles)
      | (None, tempFiles) \<Rightarrow>
          (None, map (WriteFile \<circ> tempPath \<circ> fst) tempFiles
                 @ map (\<lambda>(i, tf). Started i (first_call (fst tf))) (enumerate 0 tempFiles)
                 @ upload_waits (length tempFiles) 0
                 @ map (Unlink \<circ> tempPath \<circ> fst) tempFiles))"

subsection \<open>The batch as a whole (lines 266--371)\<close>

text \<open>\<open>s.replace("/", "-")\<close> with a string pattern: only the first occurrence is replaced.\<close>

fun replaceFirst :: "char \<Rightarrow> char \<Rightarrow> string \<Rightarrow> string" where
  "replaceFirst a b [] = []"
| "replaceFirst a b (c # cs) = (if c = a then b # cs else c # replaceFirst a b cs)"

text \<open>
  \<open>getOrCreateVectorStore\<close> (lines 312--341): its \<open>catch\<close> rethrows. \<open>VECTOR_STORE_ID\<close> is the
  variable imported from \<open>index.ts\<close>; the store found in the listing is not used.
\<close>

definition getOrCreateVectorStore :: "Service \<Rightarrow> string \<Rightarrow> string \<Rightarrow> thrown + string" where
  "getOrCreateVectorStore sv VECTOR_STORE_ID repoFullName =
     (case store_list_throws sv of
        Some e \<Rightarrow> Inl e
      | None \<Rightarrow>
          if VECTOR_STORE_ID \<noteq> [] then Inr VECTOR_STORE_ID
          else store_created sv (''repo-'' @ replaceFirst CHR ''/'' CHR ''-'' repoFullName))"

text \<open>
  The results of \<open>batchAddOrUpdateFiles\<close>: a failed write of a temporary file leaves the
  \<open>try\<close> through \<open>finally\<close> and is thrown on; otherwise every upload callback pushes its
  result (listed in the order of the files).
\<close>

definition batchAddOrUpdateFiles ::
  "Service \<Rightarrow> Platform \<Rightarrow> (jsstring \<Rightarrow> jsstring) \<Rightarrow> string \<Rightarrow> FileChange list
     \<Rightarrow> FileResult list \<Rightarrow> thrown + FileResult list" where
  "batchAddOrUpdateFiles sv pf convert vsId fs res =
     (case createTempFiles pf convert fs [] of
        (Some e, tempFiles) \<Rightarrow> Inl e
      | (None, tempFiles) \<Rightarrow> Inr (res @ map (\<lambda>tf. fst (uploadFile sv vsId (fst tf))) tempFiles))"

text \<open>\<open>processBatchFiles\<close> (lines 343--372).\<close>

definition processBatchFiles ::
  "Service \<Rightarrow> Platform \<Rightarrow> (jsstring \<Rightarrow> jsstring) \<Rightarrow> string \<Rightarrow> FileChange list
     \<Rightarrow> thrown + FileResult list" where
  "processBatchFiles sv pf convert vsId fs =
     (let res = (if toRemove fs \<noteq> [] then fst (batchRemoveFiles sv vsId (toRemove fs) []) else [])
      in if toAddOrUpdate fs \<noteq> []
         then batchAddOrUpdateFiles sv pf convert vsId (toAddOrUpdate fs) res
         else Inr res)"

text \<open>
  \<open>processFileBatch\<close> (lines 266--310). The function is \<open>async\<close>, so its result is a promise
  that is fulfilled with a value (\<open>Inr\<close>) or rejected with what was thrown (\<open>Inl\<close>). Its whole
  work stands in a \<open>try\<close> whose \<open>catch\<close> marks the batch failed, and the batch is returned
  after it. \<open>batchId\<close> is the generated id; the dates of the batch are left out.
\<close>

definition processFileBatch ::
  "Service \<Rightarrow> Platform \<Rightarrow> (jsstring \<Rightarrow> jsstring) \<Rightarrow> string \<Rightarrow> string \<Rightarrow> string
     \<Rightarrow> FileChange list \<Rightarrow> thrown + BatchJob" where
  "processFileBatch sv pf convert VECTOR_STORE_ID batchId repo fs =
     (let batch = \<lparr>bid = batchId, brepository = repo, bfiles = fs, vectorStoreId = [],
                    bstatus = BatchProcessing, berror = None, bresults = []\<rparr>
      in case getOrCreateVectorStore sv VECTOR_STORE_ID repo of
           Inl e \<Rightarrow> Inr (batch\<lparr>bstatus := BatchFailed, berror := Some (error_message e)\<rparr>)
         | Inr vsId \<Rightarrow>
            (case processBatchFiles sv pf convert vsId fs of
               Inl e \<Rightarrow> Inr (batch\<lparr>vectorStoreId := vsId, bstatus := BatchFailed,
                                  berror := Some (error_message e)\<rparr>)
             | Inr res \<Rightarrow> Inr (batch\<lparr>vectorStoreId := vsId, bresults := res,
                                    bstatus := BatchCompleted\<rparr>)))"

text \<open>
  How the call awaited by \<open>processJob\<close> (lines 181--185) settles for a job: a new
  \<open>BatchProcessor\<close> is given the repository and the files of the job.
\<close>

definition processJob_await ::
  "Service \<Rightarrow> Platform \<Rightarrow> (jsstring \<Rightarrow> jsstring) \<Rightarrow> string \<Rightarrow> string \<Rightarrow> QueueJob \<Rightarrow> outcome" where
  "processJob_await sv pf convert VECTOR_STORE_ID batchId job =
     (case processFileBatch sv pf convert VECTOR_STORE_ID batchId (repository job) (files job) of
        Inl e \<Rightarrow> Threw e
      | Inr batch \<Rightarrow> Returned batch)"

section \<open>Batch processor: results\<close>

text \<open>The call recorded by \<open>Started\<close> is the first call of the upload callback.\<close>

lemma first_call_uploadFile:
  "hd (snd (uploadFile sv vsId tf)) = first_call tf"
  by (simp add: uploadFile_def first_call_def removeExistingFile_def Let_def
      split: sum.split option.split)

lemma buildFileMap_absent:
  "m n = None \<Longrightarrow> \<forall>fid \<in> set ids. stored_name sv fid \<noteq> Some n \<Longrightarrow>
   buildFileMap sv ids m n = None"
  by (induction ids arbitrary: m) (auto split: option.splits)

text \<open>Example inputs: a service whose listing call throws, and one that holds a single
  entry, stored under the name \<open>a_b.md\<close>.\<close>

definition service_down :: Service where
  "service_down = \<lparr>store_list_throws = None, store_created = (\<lambda>_. Inr ''vs_1''),
     listed = None,
     stored_name = (\<lambda>_. None), vs_del_throws = (\<lambda>_. None), file_del_throws = (\<lambda>_. None),
     uploaded = (\<lambda>_. Inr ''file-9''), attach_throws = (\<lambda>_. None)\<rparr>"

definition service_ab :: Service where
  "service_ab = service_down\<lparr>listed := Some [''file-1''],
     stored_name := (\<lambda>_. None)(''file-1'' \<mapsto> ''a_b.md'')\<rparr>"

definition removed_file :: "string \<Rightarrow> FileChange" where
  "removed_file n = \<lparr>filename = n, fstatus = Removed, content = None, fsize = None\<rparr>"

definition added_file :: "string \<Rightarrow> FileChange" where
  "added_file n = \<lparr>filename = n, fstatus = Added, content = Some [35, 32, 72, 105], fsize = None\<rparr>"

definition seven_files :: "FileChange list" where
  "seven_files =
     map added_file [''f1.md'', ''f2.md'', ''f3.md'', ''f4.md'', ''f5.md'', ''f6.md'', ''f7.md'']"

text \<open>A platform whose writes succeed; \<open>path.join\<close> and \<open>path.basename\<close> as they act on a
  directory and a name without separators.\<close>

definition tmp_platform :: Platform where
  "tmp_platform = \<lparr>path_join = (\<lambda>d n. d @ ''/'' @ n), path_basename = (\<lambda>n. n),
     tempDir = ''/tmp'', write_throws = (\<lambda>_. None)\<rparr>"

text \<open>
  C6, as stated, fails when the listing of the index store throws: the \<open>catch\<close> of
  \<open>batchRemoveFiles\<close> then records the file as failed, although nothing in the store
  matches it.
\<close>

theorem batchRemoveFiles_listing_fails:
  "listed service_down = None \<and>
   stored_name service_down ''file-1'' = None \<and>
   toRemove [removed_file ''docs/old.md''] = [removed_file ''docs/old.md''] \<and>
   fst (batchRemoveFiles service_down ''vs_1'' (toRemove [removed_file ''docs/old.md'']) [])
     = [failure ''docs/old.md'' ''Batch remove operation failed''] \<and>
   success ''docs/old.md''
     \<notin> set (fst (batchRemoveFiles service_down ''vs_1'' (toRemove [removed_file ''docs/old.md'']) []))"
  by (simp add: service_down_def removed_file_def toRemove_def batchRemoveFiles_def
      failure_def success_def)

text \<open>
  C6, amended: when the listing of the index store succeeds, a removed file whose encoded
  name is the stored name of no listed entry gets the result \<open>success\<close>, and its callback
  makes no call on the service.
\<close>

theorem batchRemoveFiles_absent:
  assumes "listed sv = Some ids"
    and "file \<in> set (toRemove fs)"
    and "\<forall>fid \<in> set ids. stored_name sv fid \<noteq> Some (encodeFilename (filename file))"
  shows "removeFile sv (buildFileMap sv ids Map.empty) file = (success (filename file), []) \<and>
         success (filename file) \<in> set (fst (batchRemoveFiles sv vsId (toRemove fs) res))"
proof -
  have none: "buildFileMap sv ids Map.empty (encodeFilename (filename file)) = None"
    using assms(3) by (intro buildFileMap_absent) simp_all
  then have one: "removeFile sv (buildFileMap sv ids Map.empty) file = (success (filename file), [])"
    by (simp add: removeFile_def Let_def)
  have "fst (batchRemoveFiles sv vsId (toRemove fs) res)
        = res @ map (\<lambda>f. fst (removeFile sv (buildFileMap sv ids Map.empty) f)) (toRemove fs)"
    using assms(1) by (simp add: batchRemoveFiles_def Let_def)
  moreover have "fst (removeFile sv (buildFileMap sv ids Map.empty) file) = success (filename file)"
    using one by simp
  ultimately have "success (filename file) \<in> set (fst (batchRemoveFiles sv vsId (toRemove fs) res))"
    using assms(2) by force
  with one show ?thesis by simp
qed

theorem batchRemoveFiles_absent_witness:
  "listed service_ab = Some [''file-1''] \<and>
   removed_file ''docs/guide.mdx'' \<in> set (toRemove [added_file ''x.md'', removed_file ''docs/guide.mdx'']) \<and>
   encodeFilename ''docs/guide.mdx'' = ''docs_guide.md'' \<and>
   stored_name service_ab ''file-1'' = Some ''a_b.md'' \<and>
   success ''docs/guide.mdx'' \<in> set (fst (batchRemoveFiles service_ab ''vs_1''
      (toRemove [added_file ''x.md'', removed_file ''docs/guide.mdx'']) []))"
proof -
  have l: "listed service_ab = Some [''file-1'']"
    by (simp add: service_ab_def service_down_def)
  have m: "removed_file ''docs/guide.mdx''
      \<in> set (toRemove [added_file ''x.md'', removed_file ''docs/guide.mdx''])"
    by (simp add: toRemove_def removed_file_def added_file_def)
  have e: "encodeFilename ''docs/guide.mdx'' = ''docs_guide.md''"
    by (simp add: encodeFilename_def replaceSeparators_def suffix_to_prefix Let_def)
  have n: "stored_name service_ab ''file-1'' = Some ''a_b.md''"
    by (simp add: service_ab_def service_down_def)
  have a: "\<forall>fid \<in> set [''file-1'']. stored_name service_ab fid
      \<noteq> Some (encodeFilename (filename (removed_file ''docs/guide.mdx'')))"
    using e n by (simp add: removed_file_def)
  from batchRemoveFiles_absent[OF l m a, of "''vs_1''" "[]"]
  have "success ''docs/guide.mdx'' \<in> set (fst (batchRemoveFiles service_ab ''vs_1''
      (toRemove [added_file ''x.md'', removed_file ''docs/guide.mdx'']) []))"
    by (simp add: removed_file_def)
  with l m e n show ?thesis by simp
qed


text \<open>
  C7 at seven added files: \<open>openai.files.create\<close> is called for all seven while the array
  of promises is built, before the first \<open>await Promise.all\<close>. The loop then waits for the
  promises in slices of 3, 3 and 1, with a pause of two seconds after the first two slices
  only; no upload is held back until the slice before it has completed.
\<close>

theorem batchAddOrUpdateFiles_seven_files:
  "batchAddOrUpdateFiles_steps tmp_platform convert seven_files =
     (None,
      [WriteFile ''/tmp/f1.md'', WriteFile ''/tmp/f2.md'', WriteFile ''/tmp/f3.md'',
       WriteFile ''/tmp/f4.md'', WriteFile ''/tmp/f5.md'', WriteFile ''/tmp/f6.md'',
       WriteFile ''/tmp/f7.md'',
       Started 0 (FilesCreate ''/tmp/f1.md''), Started 1 (FilesCreate ''/tmp/f2.md''),
       Started 2 (FilesCreate ''/tmp/f3.md''), Started 3 (FilesCreate ''/tmp/f4.md''),
       Started 4 (FilesCreate ''/tmp/f5.md''), Started 5 (FilesCreate ''/tmp/f6.md''),
       Started 6 (FilesCreate ''/tmp/f7.md''),
       AwaitAll [0, 1, 2], Sleep 2000, AwaitAll [3, 4, 5], Sleep 2000, AwaitAll [6],
       Unlink ''/tmp/f1.md'', Unlink ''/tmp/f2.md'', Unlink ''/tmp/f3.md'',
       Unlink ''/tmp/f4.md'', Unlink ''/tmp/f5.md'', Unlink ''/tmp/f6.md'',
       Unlink ''/tmp/f7.md''])"
  by (simp add: batchAddOrUpdateFiles_steps_def seven_files_def added_file_def
      tmp_platform_def Let_def tempFilePath_def encodeFilename_def replaceSeparators_def
      suffix_to_prefix first_call_def enumerate_eq_zip upt_conv_Cons)

section \<open>The queue and the Batch Processor together\<close>

text \<open>
  Example inputs: a service whose \<open>vectorStores.list\<close> throws, a job with one added file,
  the queue after the job was admitted and started once, and the batch that
  \<open>processFileBatch\<close> returns for it.
\<close>

definition store_down :: Service where
  "store_down = service_ab\<lparr>store_list_throws := Some boom\<rparr>"

definition readme_job :: JobInput where
  "readme_job = \<lparr>repository = ''org/docs'', files = [added_file ''README.md''], priority = 10\<rparr>"

definition first_attempt :: JobQueue where
  "first_attempt = run (new_JobQueue 3 100) [AddJob ''job_1'' 100 readme_job, Tick]"

definition failed_batch :: BatchJob where
  "failed_batch = \<lparr>bid = ''batch_1'', brepository = ''org/docs'',
     bfiles = [added_file ''README.md''], vectorStoreId = [], bstatus = BatchFailed,
     berror = Some ''store unavailable'', bresults = []\<rparr>"

lemma first_attempt_state:
  "suspended first_attempt = [0]"
  "timers first_attempt = []"
  "invoked first_attempt = [0]"
  "emitted first_attempt = [JobAdded 0, JobStarted 0]"
  "queue first_attempt = [0]"
  "processing first_attempt = [''job_1'']"
  "heap first_attempt 0 = \<lparr>repository = ''org/docs'', files = [added_file ''README.md''],
     priority = 10, jid = ''job_1'', createdAt = 100, attempts = 1, status = Processing,
     error = None\<rparr>"
  by (simp_all add: first_attempt_def run_def addJob_def new_JobQueue_def readme_job_def Let_def
      processJob_start_def set_add_def)

text \<open>
  C3 fails in the code. \<open>processFileBatch\<close> never rejects: whatever the service and the
  platform do, it returns a batch. So every attempt of every job ends with the job
  \<open>completed\<close> and without a retry timer, and the branch of \<open>processJob\<close> that retries and
  fails a job is never taken. At the failing input \<open>vectorStores.list\<close> throws
  \<open>store unavailable\<close> during the first attempt of a job: the batch comes back \<open>failed\<close>
  with that message, and the job, after one attempt (below 3), is not \<open>retrying\<close> but
  \<open>completed\<close>, is recorded as completed in the completion map, has no timer that would
  make it \<open>pending\<close> again, and is not given to the Batch Processor a second time.
\<close>

theorem processJob_failed_batch_completed:
  "(\<exists>batch. processFileBatch sv pf convert vsid new_id repo fs = Inr batch) \<and>
   status (heap (processJob_settle r (processJob_await sv pf convert vsid new_id (heap s r)) s) r)
     = Completed \<and>
   retry_refs (timers (processJob_settle r (processJob_await sv pf convert vsid new_id (heap s r)) s))
     = retry_refs (timers s) \<and>
   attempts (heap first_attempt 0) = 1 \<and>
   processFileBatch store_down tmp_platform convert [] ''batch_1'' ''org/docs''
       [added_file ''README.md''] = Inr failed_batch \<and>
   processJob_await store_down tmp_platform convert [] ''batch_1'' (heap first_attempt 0)
     = Returned failed_batch \<and>
   status (heap (exec first_attempt (Settle 0 (Returned failed_batch))) 0) = Completed \<and>
   error (heap (exec first_attempt (Settle 0 (Returned failed_batch))) 0) = None \<and>
   completed (exec first_attempt (Settle 0 (Returned failed_batch))) ''job_1''
     = Some \<lparr>cstatus = ''completed'', cresult = Some failed_batch, cerror = None\<rparr> \<and>
   timers (exec first_attempt (Settle 0 (Returned failed_batch))) = [(300000, Evict 0)] \<and>
   emitted (exec first_attempt (Settle 0 (Returned failed_batch)))
     = [JobAdded 0, JobStarted 0, JobCompleted 0] \<and>
   invoked (run (exec first_attempt (Settle 0 (Returned failed_batch))) [Tick, Fire 0, Tick]) = [0]"
proof -
  have ret: "\<exists>batch. processFileBatch sv pf convert vsid new_id repo fs = Inr batch"
    for sv pf convert vsid new_id repo fs
    by (simp add: processFileBatch_def Let_def split: sum.split)
  from ret[of sv pf convert vsid new_id "repository (heap s r)" "files (heap s r)"]
  obtain batch where aw: "processJob_await sv pf convert vsid new_id (heap s r) = Returned batch"
    by (auto simp: processJob_await_def)
  have st: "status (heap (processJob_settle r (processJob_await sv pf convert vsid new_id (heap s r)) s) r)
     = Completed"
    by (simp add: aw settle_status)
  have tm: "retry_refs (timers (processJob_settle r (processJob_await sv pf convert vsid new_id (heap s r)) s))
     = retry_refs (timers s)"
    by (simp add: aw settle_timers)
  have fb: "processFileBatch store_down tmp_platform convert [] ''batch_1'' ''org/docs''
       [added_file ''README.md''] = Inr failed_batch"
    by (simp add: processFileBatch_def getOrCreateVectorStore_def store_down_def service_ab_def
        service_down_def boom_def failed_batch_def Let_def)
  have pa: "processJob_await store_down tmp_platform convert [] ''batch_1'' (heap first_attempt 0)
     = Returned failed_batch"
    by (simp add: processJob_await_def first_attempt_state fb)
  let ?done = "exec first_attempt (Settle 0 (Returned failed_batch))"
  have d: "heap ?done 0 = (heap first_attempt 0)\<lparr>status := Completed\<rparr>"
    "timers ?done = [(300000, Evict 0)]"
    "emitted ?done = [JobAdded 0, JobStarted 0, JobCompleted 0]"
    "completed ?done ''job_1''
       = Some \<lparr>cstatus = ''completed'', cresult = Some failed_batch, cerror = None\<rparr>"
    "queue ?done = [0]" "processing ?done = []" "invoked ?done = [0]"
    by (simp_all add: first_attempt_state processJob_settle_def processJob_try_def
        processJob_finally_def set_delete_def Let_def)
  have later: "invoked (run ?done [Tick, Fire 0, Tick]) = [0]"
    by (simp add: first_attempt_def run_def addJob_def new_JobQueue_def readme_job_def Let_def
        processJob_start_def set_add_def set_delete_def processJob_settle_def processJob_try_def
        processJob_finally_def splice_out_def)
  from ret st tm fb pa d later show ?thesis
    by (simp add: first_attempt_state)
qed

section \<open>Webhook orchestrator (class \<open>OpenAIVectorStoreUpdater\<close>, lines 584--844)\<close>

subsection \<open>Payload and runtime\<close>

text \<open>
  The payload is what \<open>JSON.parse\<close> returns, cast to \<open>WebhookPayload\<close> without a check:
  a property the code reads may be absent. \<open>owner\<close> is the \<open>login\<close> of the owner object,
  \<open>None\<close> when the repository has no owner object. The field \<open>repository\<close> of the payload
  is named \<open>prepository\<close>.
\<close>

record Commit =
  added :: "string list option"
  modified :: "string list option"
  removed :: "string list option"
  message :: string

record Repository =
  name :: string
  owner :: "string option"
  full_name :: string

record WebhookPayload =
  prepository :: "Repository option"
  commits :: "Commit list option"
  ref :: "string option"
  after :: "string option"

text \<open>The answer of \<open>octokit.rest.repos.getContent\<close>: the request fails, or there is
  data, with or without a \<open>content\<close> property (base64 text).\<close>

datatype content_response = RequestFails | Data "string option"

datatype 'a promise = Fulfilled 'a | RejectedWith thrown

text \<open>
  What the orchestrator takes from Node, the Web Crypto API and the repository host:
  \<open>parseInt16 c\<close> is \<open>parseInt(c, 16)\<close> (\<open>None\<close> for \<open>NaN\<close>); \<open>subtle_verify\<close> is
  \<open>importKey\<close> followed by \<open>crypto.subtle.verify\<close> of HMAC-SHA-256, on the secret, the
  signature bytes and the data.
\<close>

record Runtime =
  path_extname :: "string \<Rightarrow> string"
  toLowerCase :: "string \<Rightarrow> string"
  getContent :: "string \<Rightarrow> string \<Rightarrow> string \<Rightarrow> string option \<Rightarrow> content_response"
  base64_decode :: "string \<Rightarrow> jsstring"
  json_parse :: "string \<Rightarrow> WebhookPayload option"
  json_stringify :: "string \<Rightarrow> string"
  parseInt16 :: "string \<Rightarrow> int option"
  subtle_verify :: "string \<Rightarrow> nat list \<Rightarrow> string \<Rightarrow> thrown + bool"
  githubWebhookSecret :: string

definition typeError :: thrown where
  "typeError = ErrorObject ''TypeError: Cannot read properties of undefined''"

subsection \<open>Signature (\<open>verifySignature\<close>, \<open>hexToBytes\<close>, lines 587--628)\<close>

text \<open>\<open>s.split(c)\<close> for a one-character separator.\<close>

fun split_on :: "char \<Rightarrow> string \<Rightarrow> string list" where
  "split_on c [] = [[]]"
| "split_on c (x # xs) =
     (if x = c then [] # split_on c xs
      else (case split_on c xs of [] \<Rightarrow> [[x]] | y # ys \<Rightarrow> (x # y) # ys))"

fun hex_pairs :: "string \<Rightarrow> string list" where
  "hex_pairs (a # b # rest) = [a, b] # hex_pairs rest"
| "hex_pairs [a] = [[a]]"
| "hex_pairs [] = []"

text \<open>A \<open>Uint8Array\<close> of \<open>hex.length / 2\<close> bytes: a write past its end is dropped, \<open>NaN\<close> is
  stored as 0 and any other number modulo 256.\<close>

definition hexToBytes :: "Runtime \<Rightarrow> string \<Rightarrow> nat list" where
  "hexToBytes rt hex =
     take (length hex div 2)
       (map (\<lambda>c. case parseInt16 rt c of None \<Rightarrow> 0 | Some b \<Rightarrow> nat (b mod 256)) (hex_pairs hex))"

text \<open>\<open>verifySignature\<close> is an \<open>async\<close> function: what it returns is a promise, and
  an exception in its body rejects that promise.\<close>

definition verifySignature :: "Runtime \<Rightarrow> string \<Rightarrow> string option \<Rightarrow> string \<Rightarrow> bool promise" where
  "verifySignature rt secret header payload =
     (case header of
        None \<Rightarrow> RejectedWith typeError
      | Some h \<Rightarrow>
         (case drop 1 (split_on CHR ''='' h) of
            [] \<Rightarrow> RejectedWith typeError
          | sigHex # _ \<Rightarrow>
             (case subtle_verify rt secret (hexToBytes rt sigHex) payload of
                Inl e \<Rightarrow> RejectedWith e
              | Inr equal \<Rightarrow> Fulfilled equal)))"

text \<open>The truthiness of a promise in a condition: a promise is an object, and every object
  is truthy, whatever it settles to.\<close>

definition truthy_promise :: "'a promise \<Rightarrow> bool" where
  "truthy_promise p = True"

subsection \<open>Change-set extraction (lines 630--738)\<close>

definition SUPPORTED_EXTENSIONS :: "string list" where
  "SUPPORTED_EXTENSIONS =
     [''.md'', ''.txt'', ''.json'', ''.xml'', ''.csv'', ''.pdf'', ''.docx'', ''.ts'', ''.js'', ''.mdx'']"

text \<open>\<open>includes\<close> is \<^const>\<open>sublist\<close>, \<open>startsWith\<close> is \<^const>\<open>prefix\<close>.\<close>

definition shouldProcessFile :: "Runtime \<Rightarrow> string \<Rightarrow> bool" where
  "shouldProcessFile rt n =
     (let ext = toLowerCase rt (path_extname rt n)
      in if sublist ''node_modules'' n \<or> sublist ''.git'' n \<or> sublist ''dist'' n \<or>
            sublist ''build'' n \<or> prefix ''.'' n
         then False
         else ext \<in> set SUPPORTED_EXTENSIONS)"

definition getFileContent ::
  "Runtime \<Rightarrow> string \<Rightarrow> string \<Rightarrow> string \<Rightarrow> string option \<Rightarrow> jsstring option" where
  "getFileContent rt own repo path sha =
     (case getContent rt own repo path sha of
        RequestFails \<Rightarrow> None
      | Data None \<Rightarrow> None
      | Data (Some c) \<Rightarrow> if c \<noteq> [] then Some (base64_decode rt c) else None)"

definition ascii_lower :: "char \<Rightarrow> char" where
  "ascii_lower c =
     (if (65::nat) \<le> of_char c \<and> of_char c \<le> (90::nat) then char_of (of_char c + (32::nat)) else c)"

text \<open>\<open>/^Merge pull request/i.test(message)\<close>.\<close>

definition isMergeMessage :: "string \<Rightarrow> bool" where
  "isMergeMessage m = prefix ''merge pull request'' (map ascii_lower m)"

definition change :: "file_status \<Rightarrow> string \<Rightarrow> FileChange" where
  "change st n = \<lparr>filename = n, fstatus = st, content = None, fsize = None\<rparr>"

text \<open>The body of the loop over the commits (lines 688--701); \<open>None\<close> when \<open>.map\<close> is
  called on an absent list, which throws a \<open>TypeError\<close>.\<close>

definition commitChanges :: "Commit \<Rightarrow> FileChange list option" where
  "commitChanges c =
     (case added c of None \<Rightarrow> None | Some a \<Rightarrow>
      case modified c of None \<Rightarrow> None | Some m \<Rightarrow>
      case removed c of None \<Rightarrow> None | Some r \<Rightarrow>
        Some (map (change Added) a @ map (change Modified) m @ map (change Removed) r))"

fun collectChanges :: "Commit list \<Rightarrow> FileChange list \<Rightarrow> FileChange list option" where
  "collectChanges [] changedFiles = Some changedFiles"
| "collectChanges (c # cs) changedFiles =
     (case commitChanges c of
        None \<Rightarrow> None
      | Some new \<Rightarrow> collectChanges cs (changedFiles @ new))"

definition pushedChanges :: "WebhookPayload \<Rightarrow> FileChange list option" where
  "pushedChanges payload =
     (case commits payload of
        None \<Rightarrow> Some []
      | Some cs \<Rightarrow>
          if 0 < length cs
          then collectChanges (filter (\<lambda>c. \<not> isMergeMessage (message c)) cs) []
          else Some [])"

text \<open>The callback of lines 713--722: the fetched content is stored on the file object.\<close>

definition withContent :: "Runtime \<Rightarrow> string \<Rightarrow> string \<Rightarrow> string option \<Rightarrow> FileChange \<Rightarrow> FileChange" where
  "withContent rt own repo sha file =
     (if fstatus file \<noteq> Removed
      then file\<lparr>content := getFileContent rt own repo (filename file) sha\<rparr>
      else file)"

text \<open>
  \<open>getChangedFiles\<close> (lines 671--738). The accesses \<open>repository.owner.login\<close> and
  \<open>repository.name\<close> of lines 677--678 stand before the \<open>try\<close>; what is thrown inside the
  \<open>try\<close> is caught and gives the empty list.
\<close>

definition getChangedFiles :: "Runtime \<Rightarrow> WebhookPayload \<Rightarrow> thrown + FileChange list" where
  "getChangedFiles rt payload =
     (case prepository payload of
        None \<Rightarrow> Inl typeError
      | Some repo \<Rightarrow>
         (case owner repo of
            None \<Rightarrow> Inl typeError
          | Some own \<Rightarrow>
             (case pushedChanges payload of
                None \<Rightarrow> Inr []
              | Some changedFiles \<Rightarrow>
                  let supportedFiles = filter (\<lambda>f. shouldProcessFile rt (filename f)) changedFiles;
                      fetched = map (withContent rt own (name repo) (after payload)) supportedFiles
                  in Inr (filter (\<lambda>f. fstatus f = Removed \<or> truthy (content f)) fetched))))"

subsection \<open>\<open>handleWebhook\<close> (lines 763--805)\<close>

record Request =
  signature :: "string option"
  body_payload :: string
  ip :: string

datatype log_entry =
  InvalidSignature string | ProcessingWebhook string | FoundFiles nat | WebhookProcessingError

text \<open>
  \<open>handleWebhook\<close>: the lines it logs and the queue after it. The response
  \<open>202 Accepted\<close> is sent before the signature is looked at. The condition of line 772
  negates the promise \<open>verifySignature\<close> returns, not the value it settles to.
\<close>

definition handleWebhook ::
  "Runtime \<Rightarrow> Request \<Rightarrow> string \<Rightarrow> nat \<Rightarrow> JobQueue \<Rightarrow> log_entry list \<times> JobQueue" where
  "handleWebhook rt req new_id now s =
     (let payload = json_stringify rt (body_payload req) in
      if \<not> truthy_promise (verifySignature rt (githubWebhookSecret rt) (signature req) payload)
      then ([InvalidSignature (ip req)], s)
      else
        case json_parse rt (body_payload req) of
          None \<Rightarrow> ([WebhookProcessingError], s)
        | Some webhookPayload \<Rightarrow>
            if truthy (ref webhookPayload) \<and> \<not> suffix ''/main'' (the (ref webhookPayload))
            then ([], s)
            else
              case prepository webhookPayload of
                None \<Rightarrow> ([WebhookProcessingError], s)
              | Some repo \<Rightarrow>
                 (case getChangedFiles rt webhookPayload of
                    Inl e \<Rightarrow> ([ProcessingWebhook (full_name repo), WebhookProcessingError], s)
                  | Inr changedFiles \<Rightarrow>
                      if length changedFiles = 0
                      then ([ProcessingWebhook (full_name repo), FoundFiles 0], s)
                      else
                        case addJob new_id now
                               \<lparr>repository = full_name repo, files = changedFiles,
                                priority = calculatePriority changedFiles\<rparr> s of
                          (Inl e, s') \<Rightarrow>
                            ([ProcessingWebhook (full_name repo),
                              FoundFiles (length changedFiles), WebhookProcessingError], s')
                        | (Inr jobId, s') \<Rightarrow>
                            ([ProcessingWebhook (full_name repo),
                              FoundFiles (length changedFiles)], s')))"

section \<open>Webhook orchestrator: results\<close>

lemma collectChanges_None:
  "collectChanges cs acc = None \<longleftrightarrow> (\<exists>c \<in> set cs. commitChanges c = None)"
  by (induction cs arbitrary: acc) (auto split: option.splits)

lemma commitChanges_None:
  "commitChanges c = None \<longleftrightarrow> added c = None \<or> modified c = None \<or> removed c = None"
  by (auto simp: commitChanges_def split: option.splits)

lemma pushedChanges_None:
  "pushedChanges payload = None \<longleftrightarrow>
     (\<exists>cs. commits payload = Some cs \<and>
        (\<exists>c \<in> set cs. \<not> isMergeMessage (message c) \<and>
           (added c = None \<or> modified c = None \<or> removed c = None)))"
  by (auto simp: pushedChanges_def collectChanges_None commitChanges_None split: option.splits)

lemma withContent_fields [simp]:
  "filename (withContent rt own repo sha f) = filename f"
  "fstatus (withContent rt own repo sha f) = fstatus f"
  by (simp_all add: withContent_def)

lemma withContent_content:
  "fstatus f \<noteq> Removed \<Longrightarrow>
   content (withContent rt own repo sha f) = getFileContent rt own repo (filename f) sha"
  by (simp add: withContent_def)

lemma getFileContent_fails:
  "getContent rt own repo path sha = RequestFails \<Longrightarrow> getFileContent rt own repo path sha = None"
  by (simp add: getFileContent_def)

text \<open>Example inputs: a runtime in which only \<open>README.md\<close> can be fetched and every
  signature check answers \<open>false\<close>; a push of one commit to the main branch; the same
  payload without the owner of the repository, and with a commit that has no \<open>added\<close>
  list; a request whose signature does not match.\<close>

definition simple_extname :: "string \<Rightarrow> string" where
  "simple_extname n =
     (if CHR ''.'' \<in> set n then CHR ''.'' # List.rev (takeWhile (\<lambda>c. c \<noteq> CHR ''.'') (List.rev n)) else [])"

definition readme_text :: jsstring where
  "readme_text = [35, 32, 72, 105]"

definition node_rt :: Runtime where
  "node_rt = \<lparr>path_extname = simple_extname, toLowerCase = map ascii_lower,
     getContent = (\<lambda>own repo path sha.
        if path = ''README.md'' then Data (Some ''IyBIaQ=='') else RequestFails),
     base64_decode = (\<lambda>_. readme_text),
     json_parse = (\<lambda>_. None),
     json_stringify = (\<lambda>s. s),
     parseInt16 = (\<lambda>_. Some 0),
     subtle_verify = (\<lambda>secret sig data. Inr False),
     githubWebhookSecret = ''s3cret''\<rparr>"

definition push_commit :: Commit where
  "push_commit = \<lparr>added = Some [''README.md'', ''docs/guide.md''], modified = Some [],
     removed = Some [''old.txt''], message = ''Update docs''\<rparr>"

definition push_payload :: WebhookPayload where
  "push_payload = \<lparr>prepository = Some \<lparr>name = ''docs'', owner = Some ''org'', full_name = ''org/docs''\<rparr>,
     commits = Some [push_commit], ref = Some ''refs/heads/main'', after = Some ''abc123''\<rparr>"

definition payload_without_owner :: WebhookPayload where
  "payload_without_owner =
     push_payload\<lparr>prepository := Some \<lparr>name = ''docs'', owner = None, full_name = ''org/docs''\<rparr>\<rparr>"

definition payload_broken_commit :: WebhookPayload where
  "payload_broken_commit = push_payload\<lparr>commits := Some [push_commit\<lparr>added := None\<rparr>]\<rparr>"

definition forged_request :: Request where
  "forged_request = \<lparr>signature = Some ''sha256=00'', body_payload = ''{...}'', ip = ''203.0.113.7''\<rparr>"

definition webhook_rt :: Runtime where
  "webhook_rt = node_rt\<lparr>json_parse := (\<lambda>_. Some push_payload)\<rparr>"

lemma shouldProcessFile_examples:
  "shouldProcessFile node_rt ''README.md''" "shouldProcessFile node_rt ''docs/guide.md''"
  "shouldProcessFile node_rt ''old.txt''"
  by (simp_all add: shouldProcessFile_def node_rt_def simple_extname_def ascii_lower_def
      SUPPORTED_EXTENSIONS_def Let_def sublist_Cons_right)

lemma getFileContent_examples:
  "getFileContent node_rt ''org'' ''docs'' ''README.md'' (Some ''abc123'') = Some readme_text"
  "getFileContent node_rt ''org'' ''docs'' ''docs/guide.md'' (Some ''abc123'') = None"
  by (simp_all add: getFileContent_def node_rt_def)

lemma getChangedFiles_push:
  "getChangedFiles node_rt push_payload
   = Inr [\<lparr>filename = ''README.md'', fstatus = Added, content = Some readme_text, fsize = None\<rparr>,
          \<lparr>filename = ''old.txt'', fstatus = Removed, content = None, fsize = None\<rparr>]"
  by (simp add: getChangedFiles_def push_payload_def push_commit_def pushedChanges_def
      commitChanges_def change_def isMergeMessage_def ascii_lower_def shouldProcessFile_examples
      getFileContent_examples withContent_def readme_text_def Let_def)

lemma webhook_rt_same:
  "shouldProcessFile webhook_rt = shouldProcessFile node_rt"
  "getFileContent webhook_rt = getFileContent node_rt"
  by (simp_all add: fun_eq_iff shouldProcessFile_def getFileContent_def webhook_rt_def
      split: content_response.split option.split)

text \<open>
  C8, as stated, fails for a payload whose repository has no owner: \<open>repository.owner.login\<close>
  is read before the \<open>try\<close> block, and the \<open>TypeError\<close> leaves \<open>getChangedFiles\<close>.
\<close>

theorem getChangedFiles_owner_missing:
  "getChangedFiles node_rt payload_without_owner = Inl typeError"
  by (simp add: getChangedFiles_def payload_without_owner_def push_payload_def)

text \<open>
  C8, amended: for a payload with a repository and its owner, \<open>getChangedFiles\<close> returns a
  list; each file in it is removed or has non-empty content; the content of a file that is
  not removed is what was fetched for it, and its fetch did not fail; every supported
  changed file that is removed or whose fetch gives non-empty content is in the list,
  whatever happened to the other fetches; and when a commit that is not a merge commit
  lacks its \<open>added\<close>, \<open>modified\<close> or \<open>removed\<close> list, the list is empty.
\<close>

theorem getChangedFiles_extraction:
  assumes "prepository payload = Some repo" and "owner repo = Some own"
  shows "\<exists>fs. getChangedFiles rt payload = Inr fs \<and>
     (\<forall>f \<in> set fs. fstatus f = Removed \<or> truthy (content f)) \<and>
     (\<forall>f \<in> set fs. fstatus f \<noteq> Removed \<longrightarrow>
        content f = getFileContent rt own (name repo) (filename f) (after payload) \<and>
        getContent rt own (name repo) (filename f) (after payload) \<noteq> RequestFails) \<and>
     (\<forall>changed. pushedChanges payload = Some changed \<longrightarrow>
        (\<forall>g \<in> set changed. shouldProcessFile rt (filename g) \<and>
           (fstatus g = Removed \<or>
            truthy (getFileContent rt own (name repo) (filename g) (after payload))) \<longrightarrow>
           withContent rt own (name repo) (after payload) g \<in> set fs)) \<and>
     ((\<exists>cs. commits payload = Some cs \<and>
        (\<exists>c \<in> set cs. \<not> isMergeMessage (message c) \<and>
           (added c = None \<or> modified c = None \<or> removed c = None))) \<longrightarrow> fs = [])"
proof (cases "pushedChanges payload")
  case None
  then have "getChangedFiles rt payload = Inr []"
    using assms by (simp add: getChangedFiles_def)
  with None show ?thesis by simp
next
  case (Some changed)
  let ?w = "withContent rt own (name repo) (after payload)"
  let ?fs = "filter (\<lambda>f. fstatus f = Removed \<or> truthy (content f))
               (map ?w (filter (\<lambda>f. shouldProcessFile rt (filename f)) changed))"
  have eq: "getChangedFiles rt payload = Inr ?fs"
    using assms Some by (simp add: getChangedFiles_def Let_def)
  have a: "\<forall>f \<in> set ?fs. fstatus f = Removed \<or> truthy (content f)" by simp
  have b: "\<forall>f \<in> set ?fs. fstatus f \<noteq> Removed \<longrightarrow>
        content f = getFileContent rt own (name repo) (filename f) (after payload) \<and>
        getContent rt own (name repo) (filename f) (after payload) \<noteq> RequestFails"
  proof (intro ballI impI)
    fix f assume f: "f \<in> set ?fs" and nr: "fstatus f \<noteq> Removed"
    then obtain g where g: "g \<in> set changed" "f = ?w g" by auto
    with nr have c: "content f = getFileContent rt own (name repo) (filename f) (after payload)"
      by (simp add: withContent_content)
    from f nr have "truthy (content f)" by auto
    with c have "getContent rt own (name repo) (filename f) (after payload) \<noteq> RequestFails"
      using getFileContent_fails[of rt own "name repo" "filename f" "after payload"] by auto
    with c show "content f = getFileContent rt own (name repo) (filename f) (after payload) \<and>
        getContent rt own (name repo) (filename f) (after payload) \<noteq> RequestFails" by simp
  qed
  have c: "\<forall>g \<in> set changed. shouldProcessFile rt (filename g) \<and>
           (fstatus g = Removed \<or>
            truthy (getFileContent rt own (name repo) (filename g) (after payload))) \<longrightarrow>
           ?w g \<in> set ?fs"
  proof (intro ballI impI)
    fix g assume g: "g \<in> set changed"
      and h: "shouldProcessFile rt (filename g) \<and>
           (fstatus g = Removed \<or>
            truthy (getFileContent rt own (name repo) (filename g) (after payload)))"
    have "fstatus (?w g) = Removed \<or> truthy (content (?w g))"
      using h by (cases "fstatus g = Removed") (simp_all add: withContent_content)
    with g h show "?w g \<in> set ?fs" by simp
  qed
  have d: "\<not> (\<exists>cs. commits payload = Some cs \<and>
        (\<exists>c \<in> set cs. \<not> isMergeMessage (message c) \<and>
           (added c = None \<or> modified c = None \<or> removed c = None)))"
    using Some pushedChanges_None[of payload] by simp
  have c': "\<forall>changed'. pushedChanges payload = Some changed' \<longrightarrow>
        (\<forall>g \<in> set changed'. shouldProcessFile rt (filename g) \<and>
           (fstatus g = Removed \<or>
            truthy (getFileContent rt own (name repo) (filename g) (after payload))) \<longrightarrow>
           ?w g \<in> set ?fs)"
  proof (intro allI impI)
    fix changed' assume "pushedChanges payload = Some changed'"
    with Some have e: "changed' = changed" by simp
    show "\<forall>g \<in> set changed'. shouldProcessFile rt (filename g) \<and>
           (fstatus g = Removed \<or>
            truthy (getFileContent rt own (name repo) (filename g) (after payload))) \<longrightarrow>
           ?w g \<in> set ?fs"
      unfolding e by (rule c)
  qed
  have d': "(\<exists>cs. commits payload = Some cs \<and>
        (\<exists>c \<in> set cs. \<not> isMergeMessage (message c) \<and>
           (added c = None \<or> modified c = None \<or> removed c = None))) \<longrightarrow> ?fs = []"
    using d by blast
  show ?thesis
    apply (rule exI[of _ ?fs])
    apply (intro conjI)
        apply (rule eq)
       apply (rule a)
      apply (rule b)
     apply (rule c')
    apply (rule d')
    done
qed

theorem getChangedFiles_extraction_witness:
  "prepository payload_broken_commit
     = Some \<lparr>name = ''docs'', owner = Some ''org'', full_name = ''org/docs''\<rparr> \<and>
   commits payload_broken_commit = Some [push_commit\<lparr>added := None\<rparr>] \<and>
   getChangedFiles node_rt payload_broken_commit = Inr [] \<and>
   getContent node_rt ''org'' ''docs'' ''docs/guide.md'' (Some ''abc123'') = RequestFails \<and>
   getChangedFiles node_rt push_payload
     = Inr [\<lparr>filename = ''README.md'', fstatus = Added, content = Some readme_text, fsize = None\<rparr>,
            \<lparr>filename = ''old.txt'', fstatus = Removed, content = None, fsize = None\<rparr>]"
proof -
  let ?repo = "\<lparr>name = ''docs'', owner = Some ''org'', full_name = ''org/docs''\<rparr>"
  have r: "prepository payload_broken_commit = Some ?repo"
    by (simp add: payload_broken_commit_def push_payload_def)
  have o: "owner ?repo = Some ''org''" by simp
  have c: "commits payload_broken_commit = Some [push_commit\<lparr>added := None\<rparr>]"
    by (simp add: payload_broken_commit_def)
  have m: "\<not> isMergeMessage (message (push_commit\<lparr>added := None\<rparr>))"
    by (simp add: isMergeMessage_def push_commit_def ascii_lower_def)
  from getChangedFiles_extraction[OF r o, of node_rt] obtain fs where
    fs: "getChangedFiles node_rt payload_broken_commit = Inr fs"
    and e: "(\<exists>cs. commits payload_broken_commit = Some cs \<and>
        (\<exists>c \<in> set cs. \<not> isMergeMessage (message c) \<and>
           (added c = None \<or> modified c = None \<or> removed c = None))) \<longrightarrow> fs = []"
    by blast
  have "\<exists>cs. commits payload_broken_commit = Some cs \<and>
        (\<exists>c \<in> set cs. \<not> isMergeMessage (message c) \<and>
           (added c = None \<or> modified c = None \<or> removed c = None))"
    using c m by simp
  with e fs have b: "getChangedFiles node_rt payload_broken_commit = Inr []" by blast
  have g: "getContent node_rt ''org'' ''docs'' ''docs/guide.md'' (Some ''abc123'') = RequestFails"
    by (simp add: node_rt_def)
  from r c b g getChangedFiles_push show ?thesis by simp
qed

text \<open>
  C4 at a request whose signature does not match: the promise of \<open>verifySignature\<close>
  is fulfilled with \<open>false\<close>, yet nothing is logged about the signature, the change set is
  extracted and a job is admitted. In no call of \<open>handleWebhook\<close> is the invalid-signature
  branch taken.
\<close>

theorem handleWebhook_forged_signature:
  "verifySignature webhook_rt (githubWebhookSecret webhook_rt) (signature forged_request)
      (json_stringify webhook_rt (body_payload forged_request)) = Fulfilled False \<and>
   fst (handleWebhook webhook_rt forged_request ''job_1'' 0 (new_JobQueue 3 100))
     = [ProcessingWebhook ''org/docs'', FoundFiles 2] \<and>
   queue (snd (handleWebhook webhook_rt forged_request ''job_1'' 0 (new_JobQueue 3 100))) = [0] \<and>
   map filename
     (files (heap (snd (handleWebhook webhook_rt forged_request ''job_1'' 0 (new_JobQueue 3 100))) 0))
     = [''README.md'', ''old.txt''] \<and>
   (\<forall>rt req new_id now s a. InvalidSignature a \<notin> set (fst (handleWebhook rt req new_id now s)))"
proof -
  have v: "verifySignature webhook_rt (githubWebhookSecret webhook_rt) (signature forged_request)
      (json_stringify webhook_rt (body_payload forged_request)) = Fulfilled False"
    by (simp add: verifySignature_def webhook_rt_def node_rt_def forged_request_def)
  have g: "getChangedFiles webhook_rt push_payload
   = Inr [\<lparr>filename = ''README.md'', fstatus = Added, content = Some readme_text, fsize = None\<rparr>,
          \<lparr>filename = ''old.txt'', fstatus = Removed, content = None, fsize = None\<rparr>]"
    by (simp add: getChangedFiles_def push_payload_def push_commit_def pushedChanges_def
      commitChanges_def change_def isMergeMessage_def ascii_lower_def shouldProcessFile_examples
      getFileContent_examples webhook_rt_same withContent_def readme_text_def Let_def)
  have p: "prepository push_payload
      = Some \<lparr>name = ''docs'', owner = Some ''org'', full_name = ''org/docs''\<rparr>"
     "ref push_payload = Some ''refs/heads/main''"
    by (simp_all add: push_payload_def)
  have j: "json_parse webhook_rt (body_payload forged_request) = Some push_payload"
    by (simp add: webhook_rt_def)
  have h: "fst (handleWebhook webhook_rt forged_request ''job_1'' 0 (new_JobQueue 3 100))
     = [ProcessingWebhook ''org/docs'', FoundFiles 2]"
    "queue (snd (handleWebhook webhook_rt forged_request ''job_1'' 0 (new_JobQueue 3 100))) = [0]"
    "map filename
      (files (heap (snd (handleWebhook webhook_rt forged_request ''job_1'' 0 (new_JobQueue 3 100))) 0))
     = [''README.md'', ''old.txt'']"
    by (simp_all add: handleWebhook_def truthy_promise_def j g p Let_def suffix_to_prefix
       calculatePriority_def hasCriticalFiles_def criticalExtensions_def addJob_def
       new_JobQueue_def)
  have n: "InvalidSignature a \<notin> set (fst (handleWebhook rt req new_id now s))"
    for rt req new_id now s a
    by (simp add: handleWebhook_def truthy_promise_def Let_def
        split: option.split sum.split prod.split)
  from v h n show ?thesis by simp
qed

section \<open>Content normalizer (src/src/convertMdxContentToMd.ts)\<close>

subsection \<open>Regular expressions of the JavaScript runtime\<close>

text \<open>
  \<open>preprocessMdx\<close> is a sequence of \<open>String.prototype.replace\<close> calls with regular
  expressions. The expressions are given as syntax trees and matched by a backtracking
  matcher that follows the ECMAScript semantics for the constructs the source uses:
  characters, character classes, sequence, alternation, greedy and lazy \<open>*\<close>, capture
  groups, backreferences and the assertions \<open>^\<close> and \<open>$\<close>. Strings are lists of
  UTF-16 code units, as the source's regular expressions (none has the \<open>u\<close> flag) see
  them. \<open>Star True\<close> is the greedy \<open>*\<close>, \<open>Star False\<close> the lazy \<open>*?\<close>.
\<close>

datatype rx =
  Chr nat | Cls "nat \<Rightarrow> bool" | Seq rx rx | Alt rx rx | Star bool rx
| Grp nat rx | Backref nat | Bol | Eol | Eps

text \<open>A state of the matcher: the code unit before the current position (\<open>None\<close> at the
  start of the input), the input from the current position on, and the captures so far.\<close>

type_synonym mstate = "nat option \<times> jsstring \<times> (nat \<times> jsstring) list"

text \<open>
  \<open>Canonicalize\<close> under the \<open>i\<close> flag, on the ASCII letters. The pattern characters of the
  source are ASCII, and a code unit beyond ASCII is never made equal to an ASCII one; the
  groups that \<open>\1\<close> refers to under the \<open>i\<close> flag hold ASCII letters only. The classes
  that occur under the \<open>i\<close> flag (\<^verbatim>\<open>[^>]\<close>, \<^verbatim>\<open>[\s\S]\<close>, \<^verbatim>\<open>\s\<close> and the
  quote classes) name no letter, so the flag does not change what they accept.
\<close>

definition canonicalize :: "bool \<Rightarrow> nat \<Rightarrow> nat" where
  "canonicalize ic c = (if ic \<and> 97 \<le> c \<and> c \<le> 122 then c - 32 else c)"

text \<open>\<open>LineTerminator\<close> (what \<open>.\<close> excludes and \<open>^\<close>, \<open>$\<close> look at under the \<open>m\<close> flag) and
  the class \<open>\s\<close> (\<open>WhiteSpace\<close> and \<open>LineTerminator\<close>), which is also what \<open>trim\<close> removes.\<close>

definition is_line_terminator :: "nat \<Rightarrow> bool" where
  "is_line_terminator c \<longleftrightarrow> c = 10 \<or> c = 13 \<or> c = 8232 \<or> c = 8233"


text \<open>
  \<open>ms ic ml r s\<close>: the states in which a match of \<open>r\<close> begun in \<open>s\<close> can end, in the order in
  which backtracking tries them; \<open>ic\<close> and \<open>ml\<close> are the flags \<open>i\<close> and \<open>m\<close>. An iteration of
  \<open>*\<close> that consumes nothing is not taken. The first state of the list is the match the
  runtime reports.
\<close>

fun ms :: "bool \<Rightarrow> bool \<Rightarrow> rx \<Rightarrow> mstate \<Rightarrow> mstate list" where
  "ms ic ml (Chr c) (p, r, cs) =
     (case r of [] \<Rightarrow> []
      | x # xs \<Rightarrow> if canonicalize ic x = canonicalize ic c then [(Some x, xs, cs)] else [])"
| "ms ic ml (Cls P) (p, r, cs) =
     (case r of [] \<Rightarrow> [] | x # xs \<Rightarrow> if P x then [(Some x, xs, cs)] else [])"
| "ms ic ml (Seq a b) s = concat (map (ms ic ml b) (ms ic ml a s))"
| "ms ic ml (Alt a b) s = ms ic ml a s @ ms ic ml b s"
| "ms ic ml (Star greedy a) s =
     (let more = concat (map (\<lambda>s'. if length (fst (snd s')) < length (fst (snd s))
                                     then ms ic ml (Star greedy a) s' else [])
                             (ms ic ml a s))
      in if greedy then more @ [s] else s # more)"
| "ms ic ml (Grp n a) (p, r, cs) =
     map (\<lambda>(p', r', cs'). (p', r', (n, take (length r - length r') r) # cs'))
       (ms ic ml a (p, r, cs))"
| "ms ic ml (Backref n) (p, r, cs) =
     (case map_of cs n of
        None \<Rightarrow> [(p, r, cs)]
      | Some t \<Rightarrow>
          if length t \<le> length r \<and>
             map (canonicalize ic) (take (length t) r) = map (canonicalize ic) t
          then [(if t = [] then p else Some (last (take (length t) r)), drop (length t) r, cs)]
          else [])"
| "ms ic ml Bol (p, r, cs) =
     (case p of None \<Rightarrow> [(p, r, cs)]
      | Some c \<Rightarrow> if ml \<and> is_line_terminator c then [(p, r, cs)] else [])"
| "ms ic ml Eol (p, r, cs) =
     (case r of [] \<Rightarrow> [(p, r, cs)]
      | x # xs \<Rightarrow> if ml \<and> is_line_terminator x then [(p, r, cs)] else [])"
| "ms ic ml Eps s = [s]"

text \<open>The equation of \<open>Star\<close> calls itself and is used by name only.\<close>

declare ms.simps(5) [simp del]













subsection \<open>The patterns of \<open>preprocessMdx\<close> (lines 3--101)\<close>

















subsection \<open>What a match consumes\<close>











subsection \<open>Where a pattern cannot match\<close>














subsection \<open>Text that a replacement keeps\<close>













subsection \<open>The stages of \<open>preprocessMdx\<close>\<close>








subsection \<open>The fragment \<open><Warning>Data loss risk</Warning>\<close>\<close>






























subsection \<open>Example documents\<close>






























end
